theory Spec2Isabelle
  imports Complex_Main "HOL-Library.Multiset"
begin

section \<open>JavaScript values and errors\<close>

text \<open>
  The two modules under verification are \<^verbatim>\<open>dadi/lib/providers/markdown.js\<close> (the Markdown
  datasource provider) and \<^verbatim>\<open>dadi/lib/view/index.js\<close> (the view).

  A thrown JavaScript value is an error object: its constructor name, its message and the
  optional \<^verbatim>\<open>statusCode\<close> property that \<^verbatim>\<open>View.render\<close> attaches in its promise rejection
  handler.
\<close>

datatype js_error = JsError (err_name: string) (err_message: string) (statusCode: "int option")

text \<open>
  A number is a finite number, one of the two infinities or \<^verbatim>\<open>NaN\<close>. Only the order and the
  equality of numbers matter here, so a finite number is the real number it stands for.
\<close>

datatype number = Finite real | PosInfinity | NegInfinity | NotANumber

text \<open>
  The values that a YAML or a JSON document loads as: \<^verbatim>\<open>undefined\<close> (the empty document),
  \<^verbatim>\<open>null\<close>, booleans, numbers, strings, a Date object for a YAML timestamp (\<open>DateObj t\<close>, with
  \<open>t\<close> its time value), arrays and objects. An object is the list of its own entries in the
  order of \<^verbatim>\<open>Object.keys\<close>, so its keys are distinct; its prototype is
  \<^verbatim>\<open>Object.prototype\<close>. \<open>Function name\<close> is a built-in function that such a value inherits,
  like \<^verbatim>\<open>Object.prototype.toString\<close>.
\<close>

datatype jsval =
    Undefined
  | Null
  | Bool bool
  | Number number
  | Str string
  | DateObj int
  | Array "jsval list"
  | Object "(string \<times> jsval) list"
  | Function string

section \<open>The front-matter regular expression\<close>

text \<open>
  \<^verbatim>\<open>const yamlRegex = /---[\n\r]+([\s\S]*)[\n\r]+---[\n\r]+([\s\S]*)/\<close>

  \<^verbatim>\<open>yamlRegex.exec\<close> is a backtracking search: the leftmost start position wins; at a start
  position each quantifier is greedy and gives characters back one at a time. The functions
  below follow that search, from the innermost part of the pattern outwards.
\<close>

definition is_nl :: "char \<Rightarrow> bool" where
  "is_nl c = (c = CHR 0x0A \<or> c = CHR 0x0D)"

text \<open>
  \<open>match_tail t\<close>: the part \<^verbatim>\<open>[\n\r]+---[\n\r]+([\s\S]*)\<close> anchored at the start of \<open>t\<close>.
  The first run of line breaks must be followed by a dash, so only the whole run can match;
  the second run is greedy and the last group takes the rest. The result is group 2.
\<close>

definition match_tail :: "string \<Rightarrow> string option" where
  "match_tail t =
     (let r = dropWhile is_nl t in
      if takeWhile is_nl t \<noteq> [] \<and> take 3 r = ''---'' \<and> takeWhile is_nl (drop 3 r) \<noteq> []
      then Some (dropWhile is_nl (drop 3 r))
      else None)"

text \<open>
  \<open>try_group1 t e\<close>: group 1 is greedy, so its end is the largest \<open>e' \<le> e\<close> at which the tail
  of the pattern matches. The result is (group 1, group 2).
\<close>

fun try_group1 :: "string \<Rightarrow> nat \<Rightarrow> (string \<times> string) option" where
  "try_group1 t 0 =
     (case match_tail t of Some g2 \<Rightarrow> Some ([], g2) | None \<Rightarrow> None)"
| "try_group1 t (Suc e) =
     (case match_tail (drop (Suc e) t) of
        Some g2 \<Rightarrow> Some (take (Suc e) t, g2)
      | None \<Rightarrow> try_group1 t e)"

text \<open>
  \<open>try_breaks t k\<close>: the first \<^verbatim>\<open>[\n\r]+\<close>, after the opening dashes, takes \<open>k\<close> line breaks,
  then \<open>k - 1\<close>, down to one.
\<close>

fun try_breaks :: "string \<Rightarrow> nat \<Rightarrow> (string \<times> string) option" where
  "try_breaks t 0 = None"
| "try_breaks t (Suc k) =
     (case try_group1 (drop (Suc k) t) (length t - Suc k) of
        Some r \<Rightarrow> Some r
      | None \<Rightarrow> try_breaks t k)"

definition match_at :: "string \<Rightarrow> (string \<times> string) option" where
  "match_at s =
     (if take 3 s = ''---''
      then try_breaks (drop 3 s) (length (takeWhile is_nl (drop 3 s)))
      else None)"

text \<open>
  \<open>yamlRegex_exec s\<close> is \<^verbatim>\<open>yamlRegex.exec(s)\<close>: \<open>None\<close> is \<^verbatim>\<open>null\<close>, and
  \<open>Some (b1, b2)\<close> is the match array with \<^verbatim>\<open>bits[1] = b1\<close> and \<^verbatim>\<open>bits[2] = b2\<close>.
\<close>

fun yamlRegex_exec :: "string \<Rightarrow> (string \<times> string) option" where
  "yamlRegex_exec [] = match_at []"
| "yamlRegex_exec (c # cs) =
     (case match_at (c # cs) of
        Some r \<Rightarrow> Some r
      | None \<Rightarrow> yamlRegex_exec cs)"

section \<open>Records and external collaborators\<close>

record file_meta =
  location :: string
  extension :: string
  handle :: string

text \<open>
  The record that \<^verbatim>\<open>parseRawDataAsync\<close> pushes. \<^verbatim>\<open>attributes\<close> is whatever
  \<^verbatim>\<open>yaml.safeLoad\<close> returned: an object for a YAML mapping, and also \<^verbatim>\<open>undefined\<close> for an
  empty block, \<^verbatim>\<open>null\<close>, a scalar or an array for other documents.
\<close>

record post =
  meta :: file_meta
  attributes :: jsval
  original :: string
  contentText :: string
  contentHtml :: string

text \<open>What \<^verbatim>\<open>readFileAsync\<close> hands to its callback: \<^verbatim>\<open>{_name: filename, _contents: data}\<close>.\<close>

record read_result =
  f_name :: string
  f_contents :: string

text \<open>
  The libraries, the built-in objects and the file system the provider calls are parameters
  of the model:
  \<^item> \<open>yaml_safeLoad\<close> is \<^verbatim>\<open>yaml.safeLoad\<close>: it throws on malformed YAML, and otherwise
    gives the value of the document;
  \<^item> \<open>marked\<close> is the Markdown renderer;
  \<^item> \<open>path_parse\<close> is \<^verbatim>\<open>path.parse\<close>, giving \<^verbatim>\<open>(ext, name)\<close>; \<open>path_join\<close> and
    \<open>path_normalize\<close> are \<^verbatim>\<open>path.join\<close> and \<^verbatim>\<open>path.normalize\<close>;
  \<^item> \<open>Date_parse\<close> is the string parser of \<^verbatim>\<open>new Date(string)\<close>, giving the time value,
    or \<open>None\<close> for an invalid date; \<open>ToNumber\<close> is the conversion of a string to a number;
  \<^item> \<open>object_primitive\<close> is the conversion of an array, an object or a function to a
    primitive value, which is the string its \<^verbatim>\<open>toString\<close> gives, or a throw (an object whose
    own \<^verbatim>\<open>toString\<close> and \<^verbatim>\<open>valueOf\<close> are no functions);
  \<^item> \<open>prototype_property\<close> is what \<^verbatim>\<open>Object.prototype\<close> holds under a name: \<^verbatim>\<open>undefined\<close>
    for most names, a built-in function for \<^verbatim>\<open>toString\<close> and its like;
  \<^item> \<open>builtin_property\<close> is the property of a value that is not a plain object (a string,
    a number, a boolean, an array, a date or a function) under a name, \<^verbatim>\<open>undefined\<close> when it
    has none;
  \<^item> \<open>readdirSync\<close> and \<open>readFile\<close> are the file system: each fails with an error or gives
    the directory listing, respectively the file's text.
\<close>

record env =
  yaml_safeLoad :: "string \<Rightarrow> js_error + jsval"
  marked :: "string \<Rightarrow> string"
  path_parse :: "string \<Rightarrow> string \<times> string"
  path_join :: "string \<Rightarrow> string \<Rightarrow> string"
  path_normalize :: "string \<Rightarrow> string"
  Date_parse :: "string \<Rightarrow> int option"
  ToNumber :: "string \<Rightarrow> number"
  object_primitive :: "jsval \<Rightarrow> js_error + string"
  prototype_property :: "string \<Rightarrow> jsval"
  builtin_property :: "jsval \<Rightarrow> string \<Rightarrow> jsval"
  readdirSync :: "string \<Rightarrow> js_error + string list"
  readFile :: "string \<Rightarrow> js_error + string"

section \<open>parseRawDataAsync\<close>

text \<open>
  Reading index 1 of \<^verbatim>\<open>null\<close> throws a \<^verbatim>\<open>TypeError\<close>; this is what \<^verbatim>\<open>bits[1]\<close> does
  when \<^verbatim>\<open>exec\<close> found no match.
\<close>

definition null_property_error :: js_error where
  "null_property_error = JsError ''TypeError'' ''Cannot read properties of null'' None"

text \<open>\<^verbatim>\<open>s || ''\<close> on a string: the empty string is falsy and is replaced by the empty string.\<close>

definition or_empty :: "string \<Rightarrow> string" where
  "or_empty s = (if s = [] then [] else s)"

text \<open>
  The loop over \<^verbatim>\<open>data\<close>: a throw in any iteration leaves the function, and the callback
  is then never called; otherwise the callback receives the posts, in the order of \<^verbatim>\<open>data\<close>.
\<close>

fun parseRawDataAsync :: "env \<Rightarrow> read_result list \<Rightarrow> js_error + post list" where
  "parseRawDataAsync E [] = Inr []"
| "parseRawDataAsync E (d # ds) =
     (case yamlRegex_exec (f_contents d) of
        None \<Rightarrow> Inl null_property_error
      | Some (b1, b2) \<Rightarrow>
          (case yaml_safeLoad E (or_empty b1) of
             Inl ex \<Rightarrow> Inl ex
           | Inr attrs \<Rightarrow>
               (case parseRawDataAsync E ds of
                  Inl ex \<Rightarrow> Inl ex
                | Inr ps \<Rightarrow>
                    Inr (\<lparr> meta = \<lparr> location = f_name d,
                                    extension = fst (path_parse E (f_name d)),
                                    handle = snd (path_parse E (f_name d)) \<rparr>,
                           attributes = attrs,
                           original = f_contents d,
                           contentText = or_empty b2,
                           contentHtml = marked E (or_empty b2) \<rparr> # ps))))"

section \<open>The datasource schema\<close>

text \<open>
  \<^verbatim>\<open>this.schema.datasource\<close>: an absent property is \<open>None\<close>. An object (the sort, search
  and filter parameters) is the list of its entries in the order of \<^verbatim>\<open>Object.keys\<close>, so its
  keys are distinct. \<^verbatim>\<open>count\<close> and \<^verbatim>\<open>page\<close> are integers.
\<close>

record datasource_schema =
  source_path :: string
  source_extension :: "string option"
  ds_sort :: "(string \<times> jsval) list option"
  ds_search :: "(string \<times> jsval) list option"
  ds_count :: "int option"
  ds_fields :: "string list option"
  ds_filter :: "(string \<times> jsval) list option"
  ds_page :: "int option"

text \<open>
  \<^verbatim>\<open>initialise\<close>:
  \<^verbatim>\<open>this.extension = schema.datasource.source.extension ? schema.datasource.source.extension : 'md'\<close>
  (the empty string is falsy).
\<close>

definition initialise_extension :: "datasource_schema \<Rightarrow> string" where
  "initialise_extension sch =
     (case source_extension sch of
        None \<Rightarrow> ''md''
      | Some e \<Rightarrow> if e = [] then ''md'' else e)"

section \<open>processSortParameter\<close>

text \<open>Reading an own property of an object written as its entries.\<close>

definition own_property :: "(string \<times> jsval) list \<Rightarrow> string \<Rightarrow> jsval" where
  "own_property obj key = (case map_of obj key of None \<Rightarrow> Undefined | Some v \<Rightarrow> v)"

text \<open>The decimal numeral of an array index, which is the property key of that index.\<close>

definition digit_char :: "nat \<Rightarrow> char" where
  "digit_char d = ''0123456789'' ! d"

function string_of_nat :: "nat \<Rightarrow> string" where
  "string_of_nat n =
     (if n < 10 then [digit_char n] else string_of_nat (n div 10) @ [digit_char (n mod 10)])"
  by pat_completeness auto
termination
  by (relation "measure id") auto

text \<open>
  \<^verbatim>\<open>_.each(obj, iteratee)\<close> of underscore 1.8 walks an array-like object by index and any
  other object by its keys. An object is array-like when its \<^verbatim>\<open>length\<close> is a number with
  \<^verbatim>\<open>0 <= length <= 2^53 - 1\<close>; the loop \<^verbatim>\<open>for (i = 0; i < length; i++)\<close> then calls the
  iteratee with \<^verbatim>\<open>obj[i]\<close> and \<^verbatim>\<open>i\<close>. (\<^verbatim>\<open>Object.prototype\<close> has no \<^verbatim>\<open>length\<close> and no index
  properties, so these reads give an own property or \<^verbatim>\<open>undefined\<close>.) \<open>each_entries obj\<close> is
  the list of the pairs (key, value) the iteratee is called with.
\<close>

definition array_like_length :: "jsval \<Rightarrow> nat option" where
  "array_like_length len =
     (case len of
        Number (Finite x) \<Rightarrow> if 0 \<le> x \<and> x \<le> 2 ^ 53 - 1 then Some (nat \<lceil>x\<rceil>) else None
      | _ \<Rightarrow> None)"

definition each_entries :: "(string \<times> jsval) list \<Rightarrow> (string \<times> jsval) list" where
  "each_entries obj =
     (case array_like_length (own_property obj ''length'') of
        Some n \<Rightarrow> map (\<lambda>i. (string_of_nat i, own_property obj (string_of_nat i))) [0..<n]
      | None \<Rightarrow> obj)"

text \<open>\<^verbatim>\<open>sortInteger === -1 || sortInteger === 1\<close>.\<close>

definition direction :: "jsval \<Rightarrow> int option" where
  "direction sortInteger =
     (if sortInteger = Number (Finite 1) then Some 1
      else if sortInteger = Number (Finite (- 1)) then Some (- 1)
      else None)"

text \<open>
  The iteratee of \<^verbatim>\<open>processSortParameter\<close>: \<^verbatim>\<open>sort[field] = sortInteger\<close> for the entries
  whose value is the number \<^verbatim>\<open>-1\<close> or \<^verbatim>\<open>1\<close>. The assignment to the key \<^verbatim>\<open>__proto__\<close> of
  the fresh object \<^verbatim>\<open>{}\<close> calls the setter of \<^verbatim>\<open>Object.prototype\<close>, which ignores a number
  and creates no property. The result is the list of the entries of \<^verbatim>\<open>sort\<close> in the order
  of \<^verbatim>\<open>Object.keys(sort)\<close>.
\<close>

fun keep_directions :: "(string \<times> jsval) list \<Rightarrow> (string \<times> int) list" where
  "keep_directions [] = []"
| "keep_directions ((field, sortInteger) # rest) =
     (case direction sortInteger of
        None \<Rightarrow> keep_directions rest
      | Some d \<Rightarrow>
          if field = ''__proto__'' then keep_directions rest
          else (field, d) # keep_directions rest)"

text \<open>
  \<^verbatim>\<open>processSortParameter(obj)\<close>: \<open>None\<close> is a parameter that is absent or no object
  (\<^verbatim>\<open>_.isObject(obj)\<close> is false), for which \<^verbatim>\<open>sort\<close> stays empty. An array is written
  with its index entries and its \<^verbatim>\<open>length\<close>.
\<close>

definition processSortParameter :: "(string \<times> jsval) list option \<Rightarrow> (string \<times> int) list" where
  "processSortParameter obj =
     (case obj of None \<Rightarrow> [] | Some kvs \<Rightarrow> keep_directions (each_entries kvs))"

section \<open>The extension filter\<close>

text \<open>
  \<^verbatim>\<open>const extFilter = new RegExp('.' + this.extension + '$', 'g')\<close>

  The extension is taken to be literal text (letters and digits), so the pattern is: any
  character but a line break, then the extension, then the end of the input. The regular
  expression is global: \<^verbatim>\<open>extFilter.test(i)\<close> searches from \<^verbatim>\<open>extFilter.lastIndex\<close>, and
  sets \<^verbatim>\<open>lastIndex\<close> to the end of the match when it finds one and to 0 when it finds none.
  A match of this pattern ends at the end of the input, so it can only start at
  \<open>length i - (1 + length ext)\<close>. The result is the answer of \<^verbatim>\<open>test\<close> and the new
  \<^verbatim>\<open>lastIndex\<close>.
\<close>

definition extFilter_test :: "string \<Rightarrow> nat \<Rightarrow> string \<Rightarrow> bool \<times> nat" where
  "extFilter_test ext lastIndex i =
     (let n = length i; m = Suc (length ext) in
      if m \<le> n \<and> lastIndex \<le> n - m \<and> \<not> is_nl (i ! (n - m)) \<and> drop (Suc (n - m)) i = ext
      then (True, n)
      else (False, 0))"

text \<open>
  \<^verbatim>\<open>fs.readdirSync(sourcePath).filter(i => extFilter.test(i))\<close>: the one regular expression
  object is shared by all the calls, so \<^verbatim>\<open>lastIndex\<close> is threaded through the listing.
\<close>

fun filter_listing :: "string \<Rightarrow> nat \<Rightarrow> string list \<Rightarrow> string list" where
  "filter_listing ext lastIndex [] = []"
| "filter_listing ext lastIndex (i # rest) =
     (if fst (extFilter_test ext lastIndex i)
      then i # filter_listing ext (snd (extFilter_test ext lastIndex i)) rest
      else filter_listing ext (snd (extFilter_test ext lastIndex i)) rest)"

text \<open>A fresh regular expression has \<^verbatim>\<open>lastIndex = 0\<close>.\<close>

definition select_filenames :: "string \<Rightarrow> string list \<Rightarrow> string list" where
  "select_filenames ext listing = filter_listing ext 0 listing"

text \<open>
  Whether a filename, on its own, matches the pattern: \<^verbatim>\<open>test\<close> on a fresh regular
  expression.
\<close>

definition matches_extension :: "string \<Rightarrow> string \<Rightarrow> bool" where
  "matches_extension ext i = fst (extFilter_test ext 0 i)"

section \<open>Search and filter\<close>

text \<open>
  \<^verbatim>\<open>===\<close> on numbers: \<^verbatim>\<open>NaN\<close> is equal to nothing, itself included.
\<close>

fun num_eq :: "number \<Rightarrow> number \<Rightarrow> bool" where
  "num_eq (Finite x) (Finite y) = (x = y)"
| "num_eq PosInfinity PosInfinity = True"
| "num_eq NegInfinity NegInfinity = True"
| "num_eq _ _ = False"

text \<open>
  \<^verbatim>\<open>===\<close> on the values of the model. An array, an object, a date or a function is equal
  only to itself, and the two sides of every comparison in this program come from
  different places (a predicate of the schema and a document; the sort keys of two
  records), so such a value is never equal to the other side.
\<close>

fun strict_eq :: "jsval \<Rightarrow> jsval \<Rightarrow> bool" where
  "strict_eq Undefined Undefined = True"
| "strict_eq Null Null = True"
| "strict_eq (Bool a) (Bool b) = (a = b)"
| "strict_eq (Number a) (Number b) = num_eq a b"
| "strict_eq (Str a) (Str b) = (a = b)"
| "strict_eq _ _ = False"

text \<open>
  \<^verbatim>\<open>obj[key]\<close>: reading a property of \<^verbatim>\<open>undefined\<close> or \<^verbatim>\<open>null\<close> throws a \<^verbatim>\<open>TypeError\<close>; an
  object gives its own property or the one it inherits from \<^verbatim>\<open>Object.prototype\<close>; any
  other value gives the property of its built-in kind.
\<close>

definition undefined_property_error :: js_error where
  "undefined_property_error = JsError ''TypeError'' ''Cannot read properties of undefined'' None"

definition get_property :: "env \<Rightarrow> jsval \<Rightarrow> string \<Rightarrow> js_error + jsval" where
  "get_property E obj key =
     (case obj of
        Undefined \<Rightarrow> Inl undefined_property_error
      | Null \<Rightarrow> Inl null_property_error
      | Object entries \<Rightarrow>
          Inr (case map_of entries key of None \<Rightarrow> prototype_property E key | Some v \<Rightarrow> v)
      | _ \<Rightarrow> Inr (builtin_property E obj key))"

text \<open>
  \<^verbatim>\<open>_.matcher(attrs)(object)\<close>, which is \<^verbatim>\<open>_.isMatch(object, attrs)\<close>: for \<^verbatim>\<open>undefined\<close> and
  \<^verbatim>\<open>null\<close> it is true when the predicate has no key; otherwise every key of the predicate
  is a property of the object (\<^verbatim>\<open>key in obj\<close>: the values of a document are never
  \<^verbatim>\<open>undefined\<close>, so a property is one that does not read as \<^verbatim>\<open>undefined\<close>) with a strictly
  equal value.
\<close>

definition matcher :: "env \<Rightarrow> (string \<times> jsval) list \<Rightarrow> jsval \<Rightarrow> bool" where
  "matcher E attrs object =
     (case object of
        Undefined \<Rightarrow> attrs = []
      | Null \<Rightarrow> attrs = []
      | _ \<Rightarrow>
          list_all (\<lambda>(key, v).
             case get_property E object key of
               Inl ex \<Rightarrow> False
             | Inr w \<Rightarrow> strict_eq v w \<and> w \<noteq> Undefined) attrs)"

text \<open>
  The properties of a post, for \<^verbatim>\<open>_.where(posts, search)\<close>: three are strings,
  \<^verbatim>\<open>attributes\<close> is the value of the front matter, \<^verbatim>\<open>meta\<close> is an object, which no value of
  a predicate is identical to, and the others are inherited from \<^verbatim>\<open>Object.prototype\<close>.
\<close>

definition post_property :: "env \<Rightarrow> post \<Rightarrow> string \<Rightarrow> jsval" where
  "post_property E p key =
     (if key = ''original'' then Str (original p)
      else if key = ''contentText'' then Str (contentText p)
      else if key = ''contentHtml'' then Str (contentHtml p)
      else if key = ''attributes'' then attributes p
      else if key = ''meta'' then Object []
      else prototype_property E key)"

definition post_matches :: "env \<Rightarrow> (string \<times> jsval) list \<Rightarrow> post \<Rightarrow> bool" where
  "post_matches E search p =
     list_all (\<lambda>(key, v).
        strict_eq v (post_property E p key) \<and> post_property E p key \<noteq> Undefined) search"

definition search_stage :: "env \<Rightarrow> (string \<times> jsval) list option \<Rightarrow> post list \<Rightarrow> post list" where
  "search_stage E search posts =
     (case search of None \<Rightarrow> posts | Some s \<Rightarrow> filter (post_matches E s) posts)"

definition filter_stage :: "env \<Rightarrow> (string \<times> jsval) list option \<Rightarrow> post list \<Rightarrow> post list" where
  "filter_stage E flt posts =
     (case flt of None \<Rightarrow> posts | Some f \<Rightarrow> filter (\<lambda>p. matcher E f (attributes p)) posts)"

section \<open>Sorting\<close>

text \<open>
  The time value of \<^verbatim>\<open>new Date(number)\<close>: a finite number within 8.64e15 milliseconds of the
  epoch, cut to an integer towards zero; anything else is an invalid date.
\<close>

definition time_clip :: "number \<Rightarrow> int option" where
  "time_clip n =
     (case n of
        Finite x \<Rightarrow>
          if \<bar>x\<bar> \<le> 8640000000000000 then Some (if 0 \<le> x then \<lfloor>x\<rfloor> else \<lceil>x\<rceil>) else None
      | _ \<Rightarrow> None)"

text \<open>
  \<^verbatim>\<open>new Date(value)\<close>, as the time value of the date, \<open>None\<close> for an invalid date
  (for which \<^verbatim>\<open>toString()\<close> is \<^verbatim>\<open>'Invalid Date'\<close>). \<^verbatim>\<open>undefined\<close> converts to \<^verbatim>\<open>NaN\<close>,
  \<^verbatim>\<open>null\<close> to 0 and a boolean to 0 or 1; a string is parsed; a Date object gives its time
  value; an array, an object or a function is converted to a primitive value, which may
  throw, and that string is parsed.
\<close>

definition new_Date :: "env \<Rightarrow> jsval \<Rightarrow> js_error + int option" where
  "new_Date E v =
     (case v of
        Undefined \<Rightarrow> Inr None
      | Null \<Rightarrow> Inr (Some 0)
      | Bool b \<Rightarrow> Inr (Some (if b then 1 else 0))
      | Number n \<Rightarrow> Inr (time_clip n)
      | Str s \<Rightarrow> Inr (Date_parse E s)
      | DateObj t \<Rightarrow> Inr (Some t)
      | _ \<Rightarrow> (case object_primitive E v of Inl ex \<Rightarrow> Inl ex | Inr s \<Rightarrow> Inr (Date_parse E s)))"

text \<open>
  The iteratee of \<^verbatim>\<open>_.sortBy\<close> in \<^verbatim>\<open>load\<close>:

  \<^verbatim>\<open>const value = post.attributes[field]\<close>
  \<^verbatim>\<open>const valueAsDate = new Date(value)\<close>
  \<^verbatim>\<open>return (valueAsDate.toString() !== 'Invalid Date') ? +(valueAsDate) : value\<close>

  It throws when the attributes are \<^verbatim>\<open>undefined\<close> or \<^verbatim>\<open>null\<close>, or when the conversion of
  the value throws.
\<close>

definition sort_criteria :: "env \<Rightarrow> string \<Rightarrow> post \<Rightarrow> js_error + jsval" where
  "sort_criteria E field p =
     (case get_property E (attributes p) field of
        Inl ex \<Rightarrow> Inl ex
      | Inr v \<Rightarrow>
          (case new_Date E v of
             Inl ex \<Rightarrow> Inl ex
           | Inr None \<Rightarrow> Inr v
           | Inr (Some t) \<Rightarrow> Inr (Number (Finite (of_int t)))))"

text \<open>
  The relational comparison \<^verbatim>\<open>a < b\<close> converts both sides to primitive values: a Date object
  to its time value, an array, an object or a function to its string. (That conversion can
  throw, but not for a sort key: the iteratee has converted the same value before and
  returned.) Two strings are then compared by their code units, and anything else as
  numbers, where a comparison with \<^verbatim>\<open>NaN\<close> is false.
\<close>

definition primitive :: "env \<Rightarrow> jsval \<Rightarrow> jsval" where
  "primitive E v =
     (case v of
        Undefined \<Rightarrow> v
      | Null \<Rightarrow> v
      | Bool b \<Rightarrow> v
      | Number n \<Rightarrow> v
      | Str s \<Rightarrow> v
      | DateObj t \<Rightarrow> Number (Finite (of_int t))
      | _ \<Rightarrow> (case object_primitive E v of Inl ex \<Rightarrow> Undefined | Inr s \<Rightarrow> Str s))"

fun str_less :: "string \<Rightarrow> string \<Rightarrow> bool" where
  "str_less [] [] = False"
| "str_less [] (y # ys) = True"
| "str_less (x # xs) [] = False"
| "str_less (x # xs) (y # ys) =
     (if x = y then str_less xs ys else (of_char x :: nat) < of_char y)"

fun num_less :: "number \<Rightarrow> number \<Rightarrow> bool" where
  "num_less (Finite x) (Finite y) = (x < y)"
| "num_less (Finite x) PosInfinity = True"
| "num_less NegInfinity (Finite y) = True"
| "num_less NegInfinity PosInfinity = True"
| "num_less _ _ = False"

definition to_number :: "env \<Rightarrow> jsval \<Rightarrow> number" where
  "to_number E v =
     (case v of
        Null \<Rightarrow> Finite 0
      | Bool b \<Rightarrow> Finite (if b then 1 else 0)
      | Number n \<Rightarrow> n
      | Str s \<Rightarrow> ToNumber E s
      | _ \<Rightarrow> NotANumber)"

fun primitive_less :: "env \<Rightarrow> jsval \<Rightarrow> jsval \<Rightarrow> bool" where
  "primitive_less E (Str s) (Str t) = str_less s t"
| "primitive_less E a b = num_less (to_number E a) (to_number E b)"

definition js_less :: "env \<Rightarrow> jsval \<Rightarrow> jsval \<Rightarrow> bool" where
  "js_less E a b = primitive_less E (primitive E a) (primitive E b)"

text \<open>
  \<^verbatim>\<open>_.sortBy\<close> belongs to the underscore library, which is not part of the repository. It
  wraps each element as \<^verbatim>\<open>{value, index, criteria}\<close>, with the criteria computed by the
  iteratee, sorts the wrapped elements and unwraps them.
\<close>

record sort_item =
  item_value :: post
  item_index :: nat
  item_criteria :: jsval

text \<open>
  Modelled from the spec: the comparison function of \<^verbatim>\<open>_.sortBy\<close>. The specification
  has the keys compared by raw value (numeric or string comparison, implementation-defined
  for mixed types, not a strict total order); the function of the library is

  \<^verbatim>\<open>if (a !== b) { if (a > b || a === void 0) return 1; if (a < b || b === void 0) return -1; }\<close>
  \<^verbatim>\<open>return left.index - right.index;\<close>
\<close>

definition comparator :: "env \<Rightarrow> sort_item \<Rightarrow> sort_item \<Rightarrow> int" where
  "comparator E left right =
     (let a = item_criteria left; b = item_criteria right in
      if \<not> strict_eq a b \<and> (js_less E b a \<or> a = Undefined) then 1
      else if \<not> strict_eq a b \<and> (js_less E a b \<or> b = Undefined) then - 1
      else int (item_index left) - int (item_index right))"

text \<open>
  Modelled from the spec: the stable sort that \<^verbatim>\<open>_.sortBy\<close> runs, which is
  \<^verbatim>\<open>Array.prototype.sort\<close> with the comparison function. Where the comparison function is
  a consistent order, every sorting algorithm gives the same array, since the index breaks
  the ties; elsewhere the language leaves the result to the engine. The model is the
  insertion sort that the V8 engine runs on short arrays: each element moves left past the
  elements that the comparison function puts after it. \<open>insert_item\<close> works on the sorted
  prefix in reverse, its last element first.
\<close>

fun insert_item :: "env \<Rightarrow> sort_item \<Rightarrow> sort_item list \<Rightarrow> sort_item list" where
  "insert_item E element [] = [element]"
| "insert_item E element (tmp # rest) =
     (if comparator E tmp element > 0
      then tmp # insert_item E element rest
      else element # tmp # rest)"

text \<open>Modelled from the spec: the insertion of the elements, from the first to the last.\<close>

definition array_sort :: "env \<Rightarrow> sort_item list \<Rightarrow> sort_item list" where
  "array_sort E items = rev (foldl (\<lambda>sorted element. insert_item E element sorted) [] items)"

text \<open>
  The wrapping of the elements, with the running index: \<^verbatim>\<open>_.map\<close> calls the iteratee on
  the elements in order, and a throw of the iteratee leaves \<^verbatim>\<open>_.sortBy\<close>.
\<close>

fun wrap_items :: "(post \<Rightarrow> js_error + jsval) \<Rightarrow> nat \<Rightarrow> post list \<Rightarrow> js_error + sort_item list" where
  "wrap_items iteratee index [] = Inr []"
| "wrap_items iteratee index (p # ps) =
     (case iteratee p of
        Inl ex \<Rightarrow> Inl ex
      | Inr c \<Rightarrow>
          (case wrap_items iteratee (Suc index) ps of
             Inl ex \<Rightarrow> Inl ex
           | Inr items \<Rightarrow>
               Inr (\<lparr> item_value = p, item_index = index, item_criteria = c \<rparr> # items)))"

text \<open>
  Modelled from the spec: \<^verbatim>\<open>_.sortBy(posts, iteratee)\<close>, the stable sort of the posts on the
  key the iteratee computes: wrap, sort, and pluck the values.
\<close>

definition sortBy :: "env \<Rightarrow> post list \<Rightarrow> (post \<Rightarrow> js_error + jsval) \<Rightarrow> js_error + post list" where
  "sortBy E posts iteratee =
     (case wrap_items iteratee 0 posts of
        Inl ex \<Rightarrow> Inl ex
      | Inr items \<Rightarrow> Inr (map item_value (array_sort E items)))"

text \<open>
  The body of \<^verbatim>\<open>Object.keys(sort).forEach(field => ...)\<close>: sort by the field, and reverse
  the whole array when the direction is \<^verbatim>\<open>-1\<close>.
\<close>

definition sort_by_field :: "env \<Rightarrow> post list \<Rightarrow> string \<times> int \<Rightarrow> js_error + post list" where
  "sort_by_field E posts fd =
     (case sortBy E posts (sort_criteria E (fst fd)) of
        Inl ex \<Rightarrow> Inl ex
      | Inr ordered \<Rightarrow> Inr (if snd fd = - 1 then rev ordered else ordered))"

text \<open>The loop over the fields of \<^verbatim>\<open>sort\<close>; a throw leaves it.\<close>

fun sort_stage :: "env \<Rightarrow> (string \<times> int) list \<Rightarrow> post list \<Rightarrow> js_error + post list" where
  "sort_stage E [] posts = Inr posts"
| "sort_stage E (fd # rest) posts =
     (case sort_by_field E posts fd of
        Inl ex \<Rightarrow> Inl ex
      | Inr ordered \<Rightarrow> sort_stage E rest ordered)"

section \<open>Pagination, metadata and projection\<close>

text \<open>
  \<^verbatim>\<open>Array.prototype.slice(start, end)\<close>: a negative index counts from the end of the array,
  and both are clamped to the array.
\<close>

definition js_slice :: "'a list \<Rightarrow> int \<Rightarrow> int \<Rightarrow> 'a list" where
  "js_slice xs start stop =
     (let len = int (length xs);
          k = (if start < 0 then max (len + start) 0 else min start len);
          final = (if stop < 0 then max (len + stop) 0 else min stop len)
      in take (nat (final - k)) (drop (nat k) xs))"

text \<open>
  The object that the pagination metadata builder returns: the page, the limit, the total
  count and the number of pages.
\<close>

record pagination_metadata =
  md_page :: int
  md_limit :: int
  totalCount :: int
  totalPages :: int

text \<open>
  Modelled from the spec: the pagination metadata builder \<^verbatim>\<open>@dadi/metadata\<close>, which is
  not part of the repository. It is a pure function of the page, the limit and the total
  count, computing at least the page, the limit, the total count and
  \<open>totalPages = ceil(totalCount / limit)\<close>. The previous and next page indicators, whose
  form the specification leaves open, are left out.
\<close>

definition meta_builder :: "int \<Rightarrow> int \<Rightarrow> int \<Rightarrow> pagination_metadata" where
  "meta_builder pg limit n =
     \<lparr> md_page = pg, md_limit = limit, totalCount = n, totalPages = - ((- n) div limit) \<rparr>"

text \<open>
  The variable \<^verbatim>\<open>metadata\<close> of \<^verbatim>\<open>load\<close> holds the empty array it is initialised with
  (\<^verbatim>\<open>let metadata = []\<close>) or the object the builder returns; the envelope holds
  \<^verbatim>\<open>metadata || null\<close>. Arrays and objects are truthy.
\<close>

datatype metadata_value = EmptyArray | Metadata pagination_metadata | NullMetadata

definition truthy_metadata :: "metadata_value \<Rightarrow> bool" where
  "truthy_metadata m = (case m of EmptyArray \<Rightarrow> True | Metadata _ \<Rightarrow> True | NullMetadata \<Rightarrow> False)"

definition or_null :: "metadata_value \<Rightarrow> metadata_value" where
  "or_null m = (if truthy_metadata m then m else NullMetadata)"

text \<open>\<^verbatim>\<open>this.schema.datasource.page || 1\<close>: an absent page and the page 0 are falsy.\<close>

definition page_or_1 :: "int option \<Rightarrow> int" where
  "page_or_1 pg = (case pg of None \<Rightarrow> 1 | Some n \<Rightarrow> if n = 0 then 1 else n)"

text \<open>
  \<^verbatim>\<open>if (page && count)\<close>: the page is never falsy after its default, so pagination is
  triggered by a count that is present and not 0.
\<close>

definition paginates :: "int option \<Rightarrow> bool" where
  "paginates cnt = (case cnt of None \<Rightarrow> False | Some c \<Rightarrow> c \<noteq> 0)"

text \<open>\<^verbatim>\<open>fields.join(',')\<close>.\<close>

fun join_comma :: "string list \<Rightarrow> string" where
  "join_comma [] = []"
| "join_comma [f] = f"
| "join_comma (f # g # fs) = f @ '','' @ join_comma (g # fs)"

text \<open>
  Modelled from the spec: the underscore mixin \<^verbatim>\<open>selectFields\<close>, which is not part of the
  repository. It replaces each record with an object containing only the requested fields;
  \<open>Projected fields p\<close> stands for that object, for the joined field list and the record
  \<open>p\<close>, and \<open>Whole p\<close> for a record that was not replaced.
\<close>

datatype result_record = Whole post | Projected string post

text \<open>
  \<^verbatim>\<open>if (fields && !_.isEmpty(fields)) { posts = _.chain(posts).selectFields(fields.join(',')).value() }\<close>,
  where \<^verbatim>\<open>fields\<close> is \<^verbatim>\<open>this.schema.datasource.fields || []\<close>.
\<close>

definition project_stage :: "string list option \<Rightarrow> post list \<Rightarrow> result_record list" where
  "project_stage flds posts =
     (case flds of
        None \<Rightarrow> map Whole posts
      | Some fs \<Rightarrow> if fs = [] then map Whole posts else map (Projected (join_comma fs)) posts)"

record envelope =
  results :: "result_record list"
  metadata :: metadata_value

text \<open>
  The callback passed to \<^verbatim>\<open>parseRawDataAsync\<close> in \<^verbatim>\<open>load\<close>, from the parsed posts to the
  envelope handed to \<^verbatim>\<open>done\<close>. \<open>filtered_posts\<close> is the array after the search and the
  filter, whose length is \<^verbatim>\<open>postCount\<close>; \<open>sorted_posts\<close> is the array after the sort, or
  what the sort throws.
\<close>

definition filtered_posts :: "env \<Rightarrow> datasource_schema \<Rightarrow> post list \<Rightarrow> post list" where
  "filtered_posts E sch posts =
     filter_stage E (ds_filter sch) (search_stage E (ds_search sch) posts)"

definition sorted_posts :: "env \<Rightarrow> datasource_schema \<Rightarrow> post list \<Rightarrow> js_error + post list" where
  "sorted_posts E sch posts =
     sort_stage E (processSortParameter (ds_sort sch)) (filtered_posts E sch posts)"

text \<open>
  The rest of the callback, from \<^verbatim>\<open>// Paginate if required\<close> to the call of \<^verbatim>\<open>done\<close>, for
  the sorted posts and \<^verbatim>\<open>postCount\<close>. \<^verbatim>\<open>parseInt\<close> of an integer is that integer.
\<close>

definition envelope_of :: "datasource_schema \<Rightarrow> int \<Rightarrow> post list \<Rightarrow> envelope" where
  "envelope_of sch postCount posts =
     (let pg = page_or_1 (ds_page sch)
      in case ds_count sch of
           None \<Rightarrow>
             \<lparr> results = project_stage (ds_fields sch) posts, metadata = or_null EmptyArray \<rparr>
         | Some cnt \<Rightarrow>
             if cnt = 0
             then \<lparr> results = project_stage (ds_fields sch) posts,
                    metadata = or_null EmptyArray \<rparr>
             else
               \<lparr> results =
                   project_stage (ds_fields sch)
                     (js_slice posts ((pg - 1) * cnt) ((pg - 1) * cnt + cnt)),
                 metadata = or_null (Metadata (meta_builder pg cnt postCount)) \<rparr>)"

definition pipeline :: "env \<Rightarrow> datasource_schema \<Rightarrow> post list \<Rightarrow> js_error + envelope" where
  "pipeline E sch posts0 =
     (case sorted_posts E sch posts0 of
        Inl ex \<Rightarrow> Inl ex
      | Inr posts \<Rightarrow>
          Inr (envelope_of sch (int (length (filtered_posts E sch posts0))) posts))"

section \<open>load\<close>

text \<open>
  \<^verbatim>\<open>async.map(filepaths, this.readFileAsync, ...)\<close>: the results in the order of the paths,
  or the error of a read that failed. The reads run in parallel and the first failure to
  arrive is the one reported; the model takes the first in the order of the paths.
\<close>

fun read_all :: "env \<Rightarrow> string list \<Rightarrow> js_error + read_result list" where
  "read_all E [] = Inr []"
| "read_all E (filename # rest) =
     (case readFile E filename of
        Inl err \<Rightarrow> Inl err
      | Inr data \<Rightarrow>
          (case read_all E rest of
             Inl err \<Rightarrow> Inl err
           | Inr rs \<Rightarrow> Inr (\<lparr> f_name = filename, f_contents = data \<rparr> # rs)))"

text \<open>
  What a call of \<^verbatim>\<open>load\<close> ends in: \<open>Done err result\<close> is the call \<^verbatim>\<open>done(err, result)\<close>, with
  \<open>None\<close> for \<^verbatim>\<open>null\<close>; \<open>Uncaught ex\<close> is an exception that no handler of \<^verbatim>\<open>load\<close> catches,
  so that \<^verbatim>\<open>done\<close> is never called.

  The \<^verbatim>\<open>try\<close> block of \<^verbatim>\<open>load\<close> encloses the synchronous part: a throw of \<^verbatim>\<open>readdirSync\<close>
  reaches \<^verbatim>\<open>catch (ex) { done(ex, null) }\<close>. The final callback of \<^verbatim>\<open>async.map\<close> runs from
  the completion callback of \<^verbatim>\<open>fs.readFile\<close>, in a later turn of the event loop, after
  \<^verbatim>\<open>load\<close> has returned and left its \<^verbatim>\<open>try\<close> block: a throw of \<^verbatim>\<open>parseRawDataAsync\<close> or
  of the sort iteratee there is not caught. (With no file to read there is no document to
  parse and no post to sort, and nothing throws.)
\<close>

datatype load_outcome = Done "js_error option" "envelope option" | Uncaught js_error

definition load :: "env \<Rightarrow> datasource_schema \<Rightarrow> load_outcome" where
  "load E sch =
     (let sourcePath = path_normalize E (source_path sch) in
      case readdirSync E sourcePath of
        Inl ex \<Rightarrow> Done (Some ex) None
      | Inr listing \<Rightarrow>
          (let filenames = select_filenames (initialise_extension sch) listing;
               filepaths = map (path_join E sourcePath) filenames
           in case read_all E filepaths of
                Inl err \<Rightarrow> Done (Some err) None
              | Inr readResults \<Rightarrow>
                  (case parseRawDataAsync E readResults of
                     Inl ex \<Rightarrow> Uncaught ex
                   | Inr posts \<Rightarrow>
                       (case pipeline E sch posts of
                          Inl ex \<Rightarrow> Uncaught ex
                        | Inr envelope \<Rightarrow> Done None (Some envelope)))))"

section \<open>View.render\<close>

text \<open>
  \<^verbatim>\<open>this.page\<close>: \<^verbatim>\<open>postProcessors\<close> is a list of script names or \<^verbatim>\<open>false\<close> (\<open>None\<close>), and
  \<^verbatim>\<open>globalPostProcessors\<close> is a list of script names or absent (\<open>None\<close>).
\<close>

record page =
  hostKey :: string
  keepWhitespace :: bool
  postProcessors :: "string list option"
  globalPostProcessors :: "string list option"

text \<open>
  The template engine and the post-processor scripts are parameters:
  \<^item> \<open>template_render templateData host keepWhitespace\<close> is the promise of
    \<^verbatim>\<open>this.template.render\<close>, rejected with an error or fulfilled with the raw output; the
    template data is \<^verbatim>\<open>this.data\<close> with \<^verbatim>\<open>host\<close> set to the host key;
  \<^item> \<open>processor script data output\<close> is
    \<^verbatim>\<open>require(path.resolve(config.get('paths.processors'), script))(data, output)\<close>:
    what is thrown, by the loading of the script or by the script, or what is returned.
\<close>

record 'd view_env =
  template_render :: "'d \<Rightarrow> string \<Rightarrow> bool \<Rightarrow> js_error + string"
  processor :: "string \<Rightarrow> 'd \<Rightarrow> string \<Rightarrow> js_error + string"

text \<open>
  The calls of \<^verbatim>\<open>done\<close> in \<^verbatim>\<open>render\<close>: \<^verbatim>\<open>done(err)\<close>, \<^verbatim>\<open>done(null, processed, raw)\<close> and
  \<^verbatim>\<open>done(err, null)\<close>.
\<close>

datatype render_callback =
    DoneError js_error
  | DoneOutput string string
  | DoneErrorNull js_error

text \<open>
  A call of \<^verbatim>\<open>render\<close> ends in one call of \<^verbatim>\<open>done\<close>; on the way it calls post-processors,
  and \<open>invocations\<close> lists these calls in order, each with the script name and the second
  argument it was given.
\<close>

record render_outcome =
  invocations :: "(string \<times> string) list"
  callback :: render_callback

text \<open>
  \<^verbatim>\<open>for (let script of postProcessors) { processed = require(...)(this.data, raw) }\<close> inside
  \<^verbatim>\<open>try\<close>: the loop variable \<^verbatim>\<open>processed\<close> is overwritten by each call, and a throw leaves the
  loop.
\<close>

fun run_postProcessors ::
  "'d view_env \<Rightarrow> 'd \<Rightarrow> string \<Rightarrow> string list \<Rightarrow> string \<Rightarrow> (string \<times> string) list \<times> (js_error + string)"
where
  "run_postProcessors V data raw [] processed = ([], Inr processed)"
| "run_postProcessors V data raw (script # rest) processed =
     (case processor V script data raw of
        Inl err \<Rightarrow> ([(script, raw)], Inl err)
      | Inr out \<Rightarrow>
          (let r = run_postProcessors V data raw rest out
           in ((script, raw) # fst r, snd r)))"

text \<open>\<^verbatim>\<open>err.statusCode = 500\<close> in the rejection handler.\<close>

definition with_status_500 :: "js_error \<Rightarrow> js_error" where
  "with_status_500 err = JsError (err_name err) (err_message err) (Some 500)"

text \<open>\<^verbatim>\<open>this.page.postProcessors.concat\<close> when \<^verbatim>\<open>postProcessors\<close> is \<^verbatim>\<open>false\<close>.\<close>

definition concat_not_a_function :: js_error where
  "concat_not_a_function =
     JsError ''TypeError'' ''this.page.postProcessors.concat is not a function'' None"

text \<open>\<^verbatim>\<open>this.page.postProcessors.concat(this.page.globalPostProcessors || [])\<close>.\<close>

definition postProcessor_chain :: "page \<Rightarrow> string list \<Rightarrow> string list" where
  "postProcessor_chain pg own =
     own @ (case globalPostProcessors pg of None \<Rightarrow> [] | Some g \<Rightarrow> g)"

definition render :: "'d view_env \<Rightarrow> page \<Rightarrow> 'd \<Rightarrow> render_outcome" where
  "render V pg data =
     (case template_render V data (hostKey pg) (keepWhitespace pg) of
        Inl err \<Rightarrow> \<lparr> invocations = [], callback = DoneErrorNull (with_status_500 err) \<rparr>
      | Inr raw \<Rightarrow>
          (case postProcessors pg of
             None \<Rightarrow>
               \<lparr> invocations = [],
                 callback = DoneErrorNull (with_status_500 concat_not_a_function) \<rparr>
           | Some own \<Rightarrow>
               (let chain = postProcessor_chain pg own
                in if chain \<noteq> []
                   then (case run_postProcessors V data raw chain raw of
                           (calls, Inl err) \<Rightarrow> \<lparr> invocations = calls, callback = DoneError err \<rparr>
                         | (calls, Inr processed) \<Rightarrow>
                             \<lparr> invocations = calls, callback = DoneOutput processed raw \<rparr>)
                   else \<lparr> invocations = [], callback = DoneOutput raw raw \<rparr>)))"

section \<open>Properties of the results, and example inputs\<close>

text \<open>
  The records at the indices \<open>[a, b)\<close> of a sequence: those whose index \<open>i\<close> has
  \<open>a \<le> i < b\<close>, in order.
\<close>

definition index_range :: "'a list \<Rightarrow> int \<Rightarrow> int \<Rightarrow> 'a list" where
  "index_range xs a b =
     map (\<lambda>i. xs ! i) (filter (\<lambda>i. a \<le> int i \<and> int i < b) [0..<length xs])"

text \<open>
  The time value of the sort field of a record, when the field can be read and its value
  parses as a valid date.
\<close>

definition date_of :: "env \<Rightarrow> string \<Rightarrow> post \<Rightarrow> int option" where
  "date_of E field p =
     (case get_property E (attributes p) field of
        Inl ex \<Rightarrow> None
      | Inr v \<Rightarrow> (case new_Date E v of Inl ex \<Rightarrow> None | Inr d \<Rightarrow> d))"

text \<open>
  Two records are in date order when, if the values of the sort field of both parse as
  dates, the time value of the first is not after that of the second; a sequence is
  chronological when every record is in date order with every later one.
\<close>

definition in_date_order :: "env \<Rightarrow> string \<Rightarrow> post \<Rightarrow> post \<Rightarrow> bool" where
  "in_date_order E field p q =
     (case date_of E field p of
        None \<Rightarrow> True
      | Some s \<Rightarrow> (case date_of E field q of None \<Rightarrow> True | Some t \<Rightarrow> s \<le> t))"

definition chronological :: "env \<Rightarrow> string \<Rightarrow> post list \<Rightarrow> bool" where
  "chronological E field ps = sorted_wrt (in_date_order E field) ps"

text \<open>
  A record whose sort field can be read and holds a value that parses as a valid date, or
  \<^verbatim>\<open>undefined\<close> (the field is missing).
\<close>

definition dated_or_missing :: "env \<Rightarrow> string \<Rightarrow> post \<Rightarrow> bool" where
  "dated_or_missing E field p =
     (case get_property E (attributes p) field of
        Inl ex \<Rightarrow> False
      | Inr v \<Rightarrow>
          (case new_Date E v of
             Inl ex \<Rightarrow> False
           | Inr None \<Rightarrow> v = Undefined
           | Inr (Some t) \<Rightarrow> True))"

text \<open>
  The order of the sort keys that are finite numbers or \<^verbatim>\<open>undefined\<close>: numbers by value, and
  \<^verbatim>\<open>undefined\<close> after everything.
\<close>

definition orderable :: "jsval \<Rightarrow> bool" where
  "orderable c = (case c of Number (Finite x) \<Rightarrow> True | Undefined \<Rightarrow> True | _ \<Rightarrow> False)"

definition criteria_le :: "jsval \<Rightarrow> jsval \<Rightarrow> bool" where
  "criteria_le a b =
     (case b of
        Undefined \<Rightarrow> True
      | Number (Finite y) \<Rightarrow> (case a of Number (Finite x) \<Rightarrow> x \<le> y | _ \<Rightarrow> False)
      | _ \<Rightarrow> False)"

text \<open>
  The examples use a directory \<^verbatim>\<open>posts\<close> holding the one file \<^verbatim>\<open>a.md\<close>, whose front matter
  is the malformed YAML \<^verbatim>\<open>title: [oops\<close>, a YAML loader that rejects that text, and a date
  parser that knows three dates. No string is a number, an object converts to the string
  \<^verbatim>\<open>[object Object]\<close>, and \<^verbatim>\<open>Object.prototype\<close> holds the function \<^verbatim>\<open>toString\<close>.
\<close>

definition nl :: string where
  "nl = [CHR 0x0A]"

definition sample_Date_parse :: "string \<Rightarrow> int option" where
  "sample_Date_parse s =
     (if s = ''2020-01-01'' then Some 1577836800000
      else if s = ''2021-01-01'' then Some 1609459200000
      else if s = ''1 Jan 2022'' then Some 1640995200000
      else None)"

definition sample_yaml :: "string \<Rightarrow> js_error + jsval" where
  "sample_yaml s =
     (if s = ''title: [oops''
      then Inl (JsError ''YAMLException'' ''unexpected end of the stream within a flow collection'' None)
      else Inr (Object []))"

definition malformed_document :: string where
  "malformed_document = ''---'' @ nl @ ''title: [oops'' @ nl @ ''---'' @ nl @ ''body''"

definition sample_env :: env where
  "sample_env =
     \<lparr> yaml_safeLoad = sample_yaml,
       marked = (\<lambda>s. s),
       path_parse = (\<lambda>s. (''.md'', s)),
       path_join = (\<lambda>d f. d @ ''/'' @ f),
       path_normalize = (\<lambda>s. s),
       Date_parse = sample_Date_parse,
       ToNumber = (\<lambda>s. NotANumber),
       object_primitive = (\<lambda>v. Inr ''[object Object]''),
       prototype_property = (\<lambda>key. if key = ''toString'' then Function ''toString'' else Undefined),
       builtin_property = (\<lambda>v key. Undefined),
       readdirSync = (\<lambda>d. Inr [''a.md'']),
       readFile = (\<lambda>f. Inr malformed_document) \<rparr>"

definition empty_dir_env :: env where
  "empty_dir_env = sample_env \<lparr> readdirSync := (\<lambda>d. Inr []) \<rparr>"

definition plain_schema :: datasource_schema where
  "plain_schema =
     \<lparr> source_path = ''posts'', source_extension = None, ds_sort = None, ds_search = None,
       ds_count = None, ds_fields = None, ds_filter = None, ds_page = None \<rparr>"

text \<open>A record whose front matter is the mapping with the one key given.\<close>

definition keyed_post :: "string \<Rightarrow> string \<Rightarrow> jsval \<Rightarrow> post" where
  "keyed_post name key v =
     \<lparr> meta = \<lparr> location = name, extension = ''.md'', handle = name \<rparr>,
       attributes = Object [(key, v)],
       original = [], contentText = [], contentHtml = [] \<rparr>"

definition dated_post :: "string \<Rightarrow> jsval \<Rightarrow> post" where
  "dated_post name v = keyed_post name ''date'' v"

definition numbered_post :: "nat \<Rightarrow> post" where
  "numbered_post n = dated_post ''p'' (Number (Finite (real n)))"

definition mixed_posts :: "post list" where
  "mixed_posts =
     [dated_post ''a'' (Str ''2021-01-01''),
      dated_post ''b'' (Str ''abc''),
      dated_post ''c'' (Str ''2020-01-01'')]"

text \<open>
  A view whose template echoes its data, with two post-processors: \<^verbatim>\<open>wrap\<close> puts its input
  in brackets, \<^verbatim>\<open>shout\<close> appends an exclamation mark, and any other script throws an error
  with its own name as the message.
\<close>

definition sample_view :: "string view_env" where
  "sample_view =
     \<lparr> template_render = (\<lambda>data host keep. Inr data),
       processor = (\<lambda>script data output.
          if script = ''wrap'' then Inr (''['' @ output @ '']'')
          else if script = ''shout'' then Inr (output @ ''!'')
          else Inl (JsError ''Error'' script None)) \<rparr>"

definition sample_page :: "string list \<Rightarrow> page" where
  "sample_page scripts =
     \<lparr> hostKey = ''host'', keepWhitespace = False,
       postProcessors = Some scripts, globalPostProcessors = None \<rparr>"

section \<open>Documents without front matter\<close>

lemma match_at_no_dash: "CHR ''-'' \<notin> set s \<Longrightarrow> match_at s = None"
proof -
  assume h: "CHR ''-'' \<notin> set s"
  have "take 3 s \<noteq> ''---''"
  proof
    assume "take 3 s = ''---''"
    then have "CHR ''-'' \<in> set (take 3 s)" by simp
    then have "CHR ''-'' \<in> set s" by (rule in_set_takeD)
    with h show False by simp
  qed
  then show ?thesis by (simp add: match_at_def)
qed

lemma yamlRegex_exec_no_dash: "CHR ''-'' \<notin> set s \<Longrightarrow> yamlRegex_exec s = None"
  by (induction s) (simp_all add: match_at_no_dash)

text \<open>
  C1. The claim is that a document without the front-matter boundary pattern parses into a
  record with empty attributes and an empty body. In the code, \<^verbatim>\<open>yamlRegex.exec\<close> returns
  \<^verbatim>\<open>null\<close> for such a document and \<^verbatim>\<open>bits[1]\<close> throws a \<^verbatim>\<open>TypeError\<close>: whenever the first
  document of a batch has no match, \<^verbatim>\<open>parseRawDataAsync\<close> throws and produces no record.
\<close>

theorem parse_without_front_matter_throws:
  "yamlRegex_exec (f_contents d) = None \<Longrightarrow> parseRawDataAsync E (d # ds) = Inl null_property_error"
  by simp

theorem parse_without_front_matter_throws_witness:
  "yamlRegex_exec (f_contents \<lparr> f_name = ''a.md'', f_contents = ''hello'' \<rparr>) = None \<and>
   parseRawDataAsync sample_env [\<lparr> f_name = ''a.md'', f_contents = ''hello'' \<rparr>]
     = Inl (JsError ''TypeError'' ''Cannot read properties of null'' None)"
proof -
  have "yamlRegex_exec ''hello'' = None"
    by (rule yamlRegex_exec_no_dash) simp
  then have a: "yamlRegex_exec (f_contents \<lparr> f_name = ''a.md'', f_contents = ''hello'' \<rparr>) = None"
    by (simp del: yamlRegex_exec.simps)
  from parse_without_front_matter_throws [OF a, of sample_env "[]"] a show ?thesis
    by (simp add: null_property_error_def)
qed

section \<open>Failures of load\<close>

lemma malformed_document_exec:
  "yamlRegex_exec malformed_document = Some (''title: [oops'', ''body'')"
  by (simp add: malformed_document_def nl_def match_at_def match_tail_def is_nl_def)

lemma single_listing: "select_filenames ''md'' [''a.md''] = [''a.md'']"
  by (simp add: select_filenames_def extFilter_test_def is_nl_def)

text \<open>
  C2. The claim is that every failure during a load reaches the callback \<^verbatim>\<open>done\<close> as its
  error. In the code, a throw of \<^verbatim>\<open>parseRawDataAsync\<close> (a malformed YAML block, or a
  document without front matter) happens in the callback of \<^verbatim>\<open>async.map\<close>, outside the
  \<^verbatim>\<open>try\<close> block of \<^verbatim>\<open>load\<close>: whenever the directory is listed, the files are read and the
  parsing throws, the load ends in an uncaught exception and \<^verbatim>\<open>done\<close> is not called.
\<close>

theorem load_parse_throw_uncaught:
  assumes "readdirSync E (path_normalize E (source_path sch)) = Inr listing"
    and "read_all E (map (path_join E (path_normalize E (source_path sch)))
           (select_filenames (initialise_extension sch) listing)) = Inr readResults"
    and "parseRawDataAsync E readResults = Inl ex"
  shows "load E sch = Uncaught ex"
  using assms by (simp add: load_def)

theorem load_parse_throw_uncaught_witness:
  "readdirSync sample_env (path_normalize sample_env (source_path plain_schema)) = Inr [''a.md'']
   \<and> read_all sample_env
         (map (path_join sample_env (path_normalize sample_env (source_path plain_schema)))
           (select_filenames (initialise_extension plain_schema) [''a.md'']))
       = Inr [\<lparr> f_name = ''posts/a.md'', f_contents = malformed_document \<rparr>]
   \<and> parseRawDataAsync sample_env [\<lparr> f_name = ''posts/a.md'', f_contents = malformed_document \<rparr>]
       = Inl (JsError ''YAMLException'' ''unexpected end of the stream within a flow collection'' None)
   \<and> load sample_env plain_schema
       = Uncaught (JsError ''YAMLException'' ''unexpected end of the stream within a flow collection'' None)"
proof -
  have a: "readdirSync sample_env (path_normalize sample_env (source_path plain_schema))
             = Inr [''a.md'']"
    by (simp add: sample_env_def)
  have b: "read_all sample_env
             (map (path_join sample_env (path_normalize sample_env (source_path plain_schema)))
               (select_filenames (initialise_extension plain_schema) [''a.md'']))
           = Inr [\<lparr> f_name = ''posts/a.md'', f_contents = malformed_document \<rparr>]"
    by (simp add: sample_env_def plain_schema_def initialise_extension_def single_listing)
  have c: "parseRawDataAsync sample_env
             [\<lparr> f_name = ''posts/a.md'', f_contents = malformed_document \<rparr>]
           = Inl (JsError ''YAMLException''
                    ''unexpected end of the stream within a flow collection'' None)"
    by (simp add: malformed_document_exec or_empty_def) (simp add: sample_env_def sample_yaml_def)
  from load_parse_throw_uncaught [OF a b c] a b c show ?thesis by blast
qed

section \<open>The metadata of the envelope\<close>

lemma or_null_EmptyArray: "or_null EmptyArray = EmptyArray"
  by (simp add: or_null_def truthy_metadata_def)

text \<open>
  C3. The claim is that the metadata of the envelope is \<^verbatim>\<open>null\<close> when pagination is not
  triggered. In the code, \<^verbatim>\<open>metadata\<close> is initialised with the empty array, which is
  truthy, so \<^verbatim>\<open>metadata || null\<close> is that empty array: without pagination the metadata of
  every envelope that the code builds, and so of every envelope that is handed to
  \<^verbatim>\<open>done\<close>, is the empty array, not \<^verbatim>\<open>null\<close>.
\<close>

theorem metadata_without_pagination:
  assumes "\<not> paginates (ds_count sch)"
  shows "metadata (envelope_of sch postCount ordered) = EmptyArray
       \<and> (\<forall>envelope. pipeline E sch posts = Inr envelope \<longrightarrow> metadata envelope = EmptyArray)"
proof -
  have e: "metadata (envelope_of sch n ps) = EmptyArray" for n ps
    using assms
    by (simp add: envelope_of_def paginates_def Let_def or_null_EmptyArray split: option.splits)
  then show ?thesis
    by (auto simp add: pipeline_def split: sum.splits)
qed

lemma pipeline_no_posts:
  "ds_sort sch = None \<Longrightarrow>
   pipeline E sch [] = Inr (envelope_of sch 0 [])"
  by (simp add: pipeline_def sorted_posts_def filtered_posts_def search_stage_def
      filter_stage_def processSortParameter_def split: option.splits)

lemma load_no_files:
  "readdirSync E (path_normalize E (source_path sch)) = Inr [] \<Longrightarrow>
   load E sch =
     (case pipeline E sch [] of
        Inl ex \<Rightarrow> Uncaught ex
      | Inr envelope \<Rightarrow> Done None (Some envelope))"
  by (simp add: load_def select_filenames_def)

theorem metadata_without_pagination_witness:
  "\<not> paginates (ds_count plain_schema)
   \<and> pipeline empty_dir_env plain_schema [] = Inr \<lparr> results = [], metadata = EmptyArray \<rparr>
   \<and> load empty_dir_env plain_schema = Done None (Some \<lparr> results = [], metadata = EmptyArray \<rparr>)"
proof -
  have a: "\<not> paginates (ds_count plain_schema)"
    by (simp add: paginates_def plain_schema_def)
  have "ds_sort plain_schema = None" by (simp add: plain_schema_def)
  then have p: "pipeline empty_dir_env plain_schema [] = Inr (envelope_of plain_schema 0 [])"
    by (rule pipeline_no_posts)
  have r: "results (envelope_of plain_schema 0 []) = []"
    by (simp add: envelope_of_def plain_schema_def project_stage_def)
  from metadata_without_pagination [OF a, of 0 "[]"]
  have m: "metadata (envelope_of plain_schema 0 []) = EmptyArray" by (rule conjunct1)
  have e: "envelope_of plain_schema 0 [] = \<lparr> results = [], metadata = EmptyArray \<rparr>"
    using r m by (cases "envelope_of plain_schema 0 []") simp
  have "readdirSync empty_dir_env (path_normalize empty_dir_env (source_path plain_schema)) = Inr []"
    by (simp add: empty_dir_env_def)
  then have l: "load empty_dir_env plain_schema = Done None (Some (envelope_of plain_schema 0 []))"
    by (simp add: load_no_files p)
  from a p l e show ?thesis by simp
qed

section \<open>The selection of filenames\<close>

text \<open>
  C4. The claim is that a filename is selected exactly when it matches the extension,
  whatever its position in the listing. In the code the regular expression is global and
  keeps \<^verbatim>\<open>lastIndex\<close> between the calls of \<^verbatim>\<open>test\<close>: a matching filename that follows a
  selected one, and is not longer than it by more than the extension, is searched from
  beyond its only possible match and is dropped, and the search starts afresh after it.
\<close>

theorem select_filenames_skips_after_match:
  assumes "matches_extension ext a" and "matches_extension ext b"
    and "length b \<le> length a + length ext"
  shows "select_filenames ext (a # b # rest) = a # select_filenames ext rest"
proof -
  from assms(1) have a: "extFilter_test ext 0 a = (True, length a)"
    by (simp add: matches_extension_def extFilter_test_def Let_def split: if_splits)
  from assms(3) have b: "extFilter_test ext (length a) b = (False, 0)"
    by (auto simp add: extFilter_test_def Let_def)
  show ?thesis
    by (simp add: select_filenames_def a b)
qed

theorem select_filenames_skips_after_match_witness:
  "matches_extension ''md'' ''a.md'' \<and> matches_extension ''md'' ''b.md''
   \<and> length ''b.md'' \<le> length ''a.md'' + length ''md''
   \<and> select_filenames ''md'' [''a.md'', ''b.md''] = [''a.md'']"
proof -
  have a: "matches_extension ''md'' ''a.md''"
    by (simp add: matches_extension_def extFilter_test_def is_nl_def)
  have b: "matches_extension ''md'' ''b.md''"
    by (simp add: matches_extension_def extFilter_test_def is_nl_def)
  have c: "length ''b.md'' \<le> length ''a.md'' + length ''md''" by simp
  have d: "select_filenames ''md'' [] = []" by (simp add: select_filenames_def)
  from select_filenames_skips_after_match [OF a b c, of "[]"] a b c d show ?thesis by simp
qed

section \<open>Sorting is a permutation\<close>

lemma mset_insert_item: "mset (insert_item E x xs) = add_mset x (mset xs)"
  by (induction xs) simp_all

lemma mset_foldl_insert_item:
  "mset (foldl (\<lambda>sorted element. insert_item E element sorted) acc items) = mset acc + mset items"
  by (induction items arbitrary: acc) (simp_all add: mset_insert_item)

lemma mset_array_sort: "mset (array_sort E items) = mset items"
  by (simp add: array_sort_def mset_foldl_insert_item)

lemma set_insert_item: "set (insert_item E x xs) = insert x (set xs)"
  using mset_insert_item [of E x xs] by (metis set_mset_mset set_mset_add_mset_insert)

lemma item_value_wrap_items:
  "wrap_items iteratee index ps = Inr items \<Longrightarrow> map item_value items = ps"
proof (induction ps arbitrary: index items)
  case Nil
  then show ?case by simp
next
  case (Cons p ps)
  from Cons.prems obtain c rest where c: "iteratee p = Inr c"
    and rest: "wrap_items iteratee (Suc index) ps = Inr rest"
    and items: "items = \<lparr> item_value = p, item_index = index, item_criteria = c \<rparr> # rest"
    by (auto split: sum.splits)
  from Cons.IH [OF rest] items show ?case by simp
qed

lemma mset_sortBy: "sortBy E posts iteratee = Inr ordered \<Longrightarrow> mset ordered = mset posts"
proof -
  assume a: "sortBy E posts iteratee = Inr ordered"
  then obtain items where w: "wrap_items iteratee 0 posts = Inr items"
    and o: "ordered = map item_value (array_sort E items)"
    by (auto simp add: sortBy_def split: sum.splits)
  have "mset ordered = image_mset item_value (mset (array_sort E items))"
    by (simp add: o)
  also have "\<dots> = mset (map item_value items)"
    by (simp add: mset_array_sort)
  finally show ?thesis by (simp add: item_value_wrap_items [OF w])
qed

lemma mset_sort_by_field:
  assumes "sort_by_field E posts fd = Inr ordered"
  shows "mset ordered = mset posts"
proof (cases "sortBy E posts (sort_criteria E (fst fd))")
  case (Inl ex)
  with assms show ?thesis by (simp add: sort_by_field_def)
next
  case (Inr asc)
  from mset_sortBy [OF Inr] have "mset asc = mset posts" .
  moreover from assms Inr have "ordered = (if snd fd = - 1 then rev asc else asc)"
    by (simp add: sort_by_field_def)
  ultimately show ?thesis by simp
qed

lemma mset_sort_stage: "sort_stage E srt posts = Inr ordered \<Longrightarrow> mset ordered = mset posts"
proof (induction srt arbitrary: posts)
  case Nil
  then show ?case by simp
next
  case (Cons fd rest)
  from Cons.prems obtain mid where m: "sort_by_field E posts fd = Inr mid"
    and r: "sort_stage E rest mid = Inr ordered"
    by (auto split: sum.splits)
  from Cons.IH [OF r] mset_sort_by_field [OF m] show ?case by simp
qed

lemma mset_sorted_posts:
  "sorted_posts E sch posts = Inr ordered \<Longrightarrow> mset ordered = mset (filtered_posts E sch posts)"
  unfolding sorted_posts_def by (rule mset_sort_stage)

lemma length_sorted_posts:
  assumes "sorted_posts E sch posts = Inr ordered"
  shows "length ordered = length (filtered_posts E sch posts)"
  using mset_sorted_posts [OF assms] by (rule mset_eq_length)

section \<open>Pagination\<close>

lemma filter_index_range:
  "filter (\<lambda>i. m \<le> i \<and> i < k) [0..<n] = [m..<min k n]"
proof (induction n)
  case 0
  then show ?case by simp
next
  case (Suc n)
  show ?case
  proof (cases "n < k")
    case True
    then have "min k n = n" and "min k (Suc n) = Suc n" by simp_all
    with Suc True show ?thesis by simp
  next
    case False
    then have "min k n = k" and "min k (Suc n) = k" by simp_all
    with Suc False show ?thesis by simp
  qed
qed

lemma map_nth_upt: "k \<le> length xs \<Longrightarrow> map (\<lambda>i. xs ! i) [m..<k] = take (k - m) (drop m xs)"
  by (rule nth_equalityI) auto

lemma index_range_take_drop:
  assumes "0 \<le> a" and "0 \<le> c"
  shows "index_range xs a (a + c) = take (nat c) (drop (nat a) xs)"
proof -
  have "(\<lambda>i. a \<le> int i \<and> int i < a + c) = (\<lambda>i. nat a \<le> i \<and> i < nat (a + c))"
    using assms by (auto simp add: fun_eq_iff)
  then have "index_range xs a (a + c)
               = map (\<lambda>i. xs ! i) [nat a..<min (nat (a + c)) (length xs)]"
    by (simp add: index_range_def filter_index_range)
  also have "\<dots> = take (min (nat (a + c)) (length xs) - nat a) (drop (nat a) xs)"
    by (rule map_nth_upt) simp
  also have "\<dots> = take (nat c) (drop (nat a) xs)"
  proof (cases "nat (a + c) \<le> length xs")
    case True
    with assms show ?thesis by (simp add: min_def nat_add_distrib)
  next
    case False
    then have "length (drop (nat a) xs) \<le> nat c"
      using assms by (simp add: nat_add_distrib)
    moreover from False have "length (drop (nat a) xs) \<le> min (nat (a + c)) (length xs) - nat a"
      by (simp add: min_def)
    ultimately show ?thesis by simp
  qed
  finally show ?thesis .
qed

lemma js_slice_take_drop:
  "0 \<le> a \<Longrightarrow> 0 \<le> c \<Longrightarrow> js_slice xs a (a + c) = take (nat c) (drop (nat a) xs)"
  by (auto simp add: js_slice_def Let_def min_def)

lemma js_slice_index_range:
  "0 \<le> a \<Longrightarrow> 0 \<le> c \<Longrightarrow> js_slice xs a (a + c) = index_range xs a (a + c)"
  by (simp add: js_slice_take_drop index_range_take_drop)

lemma length_js_slice_le: "0 < c \<Longrightarrow> int (length (js_slice xs a (a + c))) \<le> c"
  by (auto simp add: js_slice_def Let_def min_def max_def)

lemma length_project_stage: "length (project_stage flds posts) = length posts"
  by (simp add: project_stage_def split: option.splits)

lemma results_paginated:
  "ds_count sch = Some cnt \<Longrightarrow> cnt \<noteq> 0 \<Longrightarrow>
   results (envelope_of sch n posts) =
     project_stage (ds_fields sch)
       (js_slice posts ((page_or_1 (ds_page sch) - 1) * cnt)
          ((page_or_1 (ds_page sch) - 1) * cnt + cnt))"
  by (simp add: envelope_of_def Let_def)

lemma metadata_paginated:
  "ds_count sch = Some cnt \<Longrightarrow> cnt \<noteq> 0 \<Longrightarrow>
   metadata (envelope_of sch n posts) = Metadata (meta_builder (page_or_1 (ds_page sch)) cnt n)"
  by (simp add: envelope_of_def Let_def or_null_def truthy_metadata_def)

lemma pipeline_Inr:
  "pipeline E sch posts = Inr envelope \<Longrightarrow>
   \<exists>ordered. sorted_posts E sch posts = Inr ordered
     \<and> envelope = envelope_of sch (int (length (filtered_posts E sch posts))) ordered"
  by (auto simp add: pipeline_def split: sum.splits)

lemma sorted_posts_plain:
  "sorted_posts E (plain_schema \<lparr> ds_count := c, ds_page := pg \<rparr>) posts = Inr posts"
  by (simp add: sorted_posts_def filtered_posts_def plain_schema_def processSortParameter_def
      search_stage_def filter_stage_def)

lemma filtered_posts_plain:
  "filtered_posts E (plain_schema \<lparr> ds_count := c, ds_page := pg \<rparr>) posts = posts"
  by (simp add: filtered_posts_def plain_schema_def search_stage_def filter_stage_def)

lemma pipeline_plain:
  "pipeline E (plain_schema \<lparr> ds_count := c, ds_page := pg \<rparr>) posts
     = Inr (envelope_of (plain_schema \<lparr> ds_count := c, ds_page := pg \<rparr>) (int (length posts)) posts)"
  by (simp add: pipeline_def sorted_posts_plain filtered_posts_plain)

lemma second_page_of_25:
  "take 10 (drop 10 (map numbered_post [0..<25])) = map numbered_post [10..<20]"
  by (simp add: take_map drop_map)

lemma pipeline_negative_count:
  "pipeline sample_env (plain_schema \<lparr> ds_count := Some (- 1), ds_page := None \<rparr>)
      [numbered_post 0, numbered_post 1, numbered_post 2]
     = Inr \<lparr> results = [Whole (numbered_post 0), Whole (numbered_post 1)],
             metadata = Metadata \<lparr> md_page = 1, md_limit = - 1, totalCount = 3, totalPages = - 3 \<rparr> \<rparr>"
  by (simp add: pipeline_plain)
    (simp add: envelope_of_def page_or_1_def js_slice_def project_stage_def plain_schema_def
      meta_builder_def or_null_def truthy_metadata_def)

text \<open>
  C5. The claim is that with pagination triggered the results are the records at the
  indices \<^verbatim>\<open>[offset, offset + count)\<close>, with \<open>offset = (page - 1) * count\<close>.
  \<^verbatim>\<open>Array.prototype.slice\<close> counts a negative index from the end of the array: with the
  count -1, which triggers pagination too, the offset is 0 and \<^verbatim>\<open>slice(0, -1)\<close> returns
  two of three records, while no index lies in \<open>[0, -1)\<close>.
\<close>

theorem negative_count_not_index_range:
  "pipeline sample_env (plain_schema \<lparr> ds_count := Some (- 1), ds_page := None \<rparr>)
      [numbered_post 0, numbered_post 1, numbered_post 2]
     = Inr \<lparr> results = [Whole (numbered_post 0), Whole (numbered_post 1)],
             metadata = Metadata \<lparr> md_page = 1, md_limit = - 1, totalCount = 3, totalPages = - 3 \<rparr> \<rparr>
   \<and> project_stage None
        (index_range [numbered_post 0, numbered_post 1, numbered_post 2]
           ((1 - 1) * (- 1)) ((1 - 1) * (- 1) + (- 1))) = []"
proof (rule conjI)
  show "project_stage None
        (index_range [numbered_post 0, numbered_post 1, numbered_post 2]
           ((1 - 1) * (- 1)) ((1 - 1) * (- 1) + (- 1))) = []"
    by (simp add: index_range_def project_stage_def)
qed (rule pipeline_negative_count)

text \<open>
  C5, amended. For every load with pagination triggered by a positive count and with a
  positive page, whenever the load hands an envelope to \<^verbatim>\<open>done\<close>: the sorting returned a
  permutation of the sequence left by the search and the filter, the results are the
  projection of its records at the indices \<^verbatim>\<open>[offset, offset + count)\<close>, with
  \<open>offset = (page - 1) * count\<close>, and the total count of the metadata is the length of
  that sequence, which is its length before the slice. With 25 records, count 10 and
  page 2, the records at the indices 10 to 19 are returned and the total count is 25.
\<close>

theorem pagination_slice_and_total:
  assumes "ds_count sch = Some cnt" and "0 < cnt" and "0 < page_or_1 (ds_page sch)"
    and "pipeline E sch posts = Inr envelope"
  shows "\<exists>ordered m.
           sorted_posts E sch posts = Inr ordered
         \<and> mset ordered = mset (filtered_posts E sch posts)
         \<and> results envelope =
             project_stage (ds_fields sch)
               (index_range ordered ((page_or_1 (ds_page sch) - 1) * cnt)
                  ((page_or_1 (ds_page sch) - 1) * cnt + cnt))
         \<and> metadata envelope = Metadata m
         \<and> totalCount m = int (length ordered)"
proof -
  from pipeline_Inr [OF assms(4)] obtain ordered
    where o: "sorted_posts E sch posts = Inr ordered"
      and e: "envelope = envelope_of sch (int (length (filtered_posts E sch posts))) ordered"
    by blast
  from assms(2) have nz: "cnt \<noteq> 0" by simp
  from assms(2,3) have off: "0 \<le> (page_or_1 (ds_page sch) - 1) * cnt" by simp
  from assms(2) have c: "0 \<le> cnt" by simp
  have r: "results envelope =
             project_stage (ds_fields sch)
               (index_range ordered ((page_or_1 (ds_page sch) - 1) * cnt)
                  ((page_or_1 (ds_page sch) - 1) * cnt + cnt))"
    by (simp only: e results_paginated [OF assms(1) nz] js_slice_index_range [OF off c])
  have m: "metadata envelope
             = Metadata (meta_builder (page_or_1 (ds_page sch)) cnt
                 (int (length (filtered_posts E sch posts))))"
    by (simp only: e metadata_paginated [OF assms(1) nz])
  have t: "totalCount (meta_builder (page_or_1 (ds_page sch)) cnt
                 (int (length (filtered_posts E sch posts)))) = int (length ordered)"
    by (simp add: meta_builder_def length_sorted_posts [OF o])
  from o mset_sorted_posts [OF o] r m t show ?thesis by blast
qed
theorem pagination_slice_and_total_witness:
  "ds_count (plain_schema \<lparr> ds_count := Some 10, ds_page := Some 2 \<rparr>) = Some 10
   \<and> (0::int) < 10
   \<and> 0 < page_or_1 (ds_page (plain_schema \<lparr> ds_count := Some 10, ds_page := Some 2 \<rparr>))
   \<and> pipeline sample_env (plain_schema \<lparr> ds_count := Some 10, ds_page := Some 2 \<rparr>)
        (map numbered_post [0..<25])
      = Inr \<lparr> results = map Whole (map numbered_post [10..<20]),
              metadata = Metadata \<lparr> md_page = 2, md_limit = 10, totalCount = 25, totalPages = 3 \<rparr> \<rparr>"
proof -
  let ?S = "plain_schema \<lparr> ds_count := Some 10, ds_page := Some 2 \<rparr>"
  let ?P = "map numbered_post [0..<25]"
  let ?env = "envelope_of ?S (int (length ?P)) ?P"
  have a: "ds_count ?S = Some 10" by simp
  have b: "(0::int) < 10" by simp
  have c: "page_or_1 (ds_page ?S) = 2" by (simp add: page_or_1_def)
  then have c': "0 < page_or_1 (ds_page ?S)" by simp
  have p: "pipeline sample_env ?S ?P = Inr ?env" by (rule pipeline_plain)
  have d: "ds_fields ?S = None" by (simp add: plain_schema_def)
  have sl: "index_range ?P ((2 - 1) * 10) ((2 - 1) * 10 + 10) = map numbered_post [10..<20]"
    using index_range_take_drop [of 10 10 ?P] second_page_of_25 by simp
  from pagination_slice_and_total [OF a b c' p] obtain ordered m
    where o: "sorted_posts sample_env ?S ?P = Inr ordered"
      and r: "results ?env = project_stage (ds_fields ?S)
                (index_range ordered ((page_or_1 (ds_page ?S) - 1) * 10)
                   ((page_or_1 (ds_page ?S) - 1) * 10 + 10))"
      and m: "metadata ?env = Metadata m" and t: "totalCount m = int (length ordered)"
    by blast
  from o have oP: "ordered = ?P" by (simp add: sorted_posts_plain)
  from r have r': "results ?env = map Whole (map numbered_post [10..<20])"
    by (simp only: oP c d sl project_stage_def option.case)
  have "metadata ?env = Metadata (meta_builder 2 10 (int (length ?P)))"
    using metadata_paginated [of ?S 10 "int (length ?P)" ?P] c by simp
  then have m': "metadata ?env
      = Metadata \<lparr> md_page = 2, md_limit = 10, totalCount = 25, totalPages = 3 \<rparr>"
    by (simp add: meta_builder_def)
  have "?env = \<lparr> results = map Whole (map numbered_post [10..<20]),
              metadata = Metadata \<lparr> md_page = 2, md_limit = 10, totalCount = 25, totalPages = 3 \<rparr> \<rparr>"
    using r' m' by (cases ?env) simp
  with a b c' p show ?thesis by simp
qed

text \<open>
  C8. The claim is that with pagination the number of returned records never exceeds the
  count. A negative count triggers pagination too, and \<^verbatim>\<open>slice(0, -1)\<close> returns all the
  records but the last: of three records, two are returned for the count -1.
\<close>

theorem negative_count_exceeds:
  "pipeline sample_env (plain_schema \<lparr> ds_count := Some (- 1), ds_page := None \<rparr>)
      [numbered_post 0, numbered_post 1, numbered_post 2]
     = Inr \<lparr> results = [Whole (numbered_post 0), Whole (numbered_post 1)],
             metadata = Metadata \<lparr> md_page = 1, md_limit = - 1, totalCount = 3, totalPages = - 3 \<rparr> \<rparr>
   \<and> \<not> int (length [Whole (numbered_post 0), Whole (numbered_post 1)]) \<le> - 1"
proof (rule conjI)
  show "\<not> int (length [Whole (numbered_post 0), Whole (numbered_post 1)]) \<le> - 1"
    by simp
qed (rule pipeline_negative_count)

text \<open>
  C8, amended. With a positive count, the number of records in the results of every
  envelope that the code builds, and so of every envelope that the load hands to \<^verbatim>\<open>done\<close>,
  never exceeds the count.
\<close>

theorem page_size_bounded:
  assumes "ds_count sch = Some cnt" and "0 < cnt"
  shows "int (length (results (envelope_of sch postCount ordered))) \<le> cnt
       \<and> (\<forall>envelope. pipeline E sch posts = Inr envelope
             \<longrightarrow> int (length (results envelope)) \<le> cnt)"
proof -
  from assms(2) have nz: "cnt \<noteq> 0" by simp
  have e: "int (length (results (envelope_of sch n ps))) \<le> cnt" for n ps
    by (simp add: results_paginated [OF assms(1) nz] length_project_stage
        length_js_slice_le [OF assms(2)])
  have "int (length (results envelope)) \<le> cnt" if "pipeline E sch posts = Inr envelope"
    for envelope
    using pipeline_Inr [OF that] e by auto
  with e show ?thesis by blast
qed

theorem page_size_bounded_witness:
  "ds_count (plain_schema \<lparr> ds_count := Some 2, ds_page := None \<rparr>) = Some 2 \<and> (0::int) < 2
   \<and> pipeline sample_env (plain_schema \<lparr> ds_count := Some 2, ds_page := None \<rparr>)
        [numbered_post 0, numbered_post 1, numbered_post 2]
       = Inr \<lparr> results = [Whole (numbered_post 0), Whole (numbered_post 1)],
               metadata = Metadata \<lparr> md_page = 1, md_limit = 2, totalCount = 3, totalPages = 2 \<rparr> \<rparr>
   \<and> int (length (results
         \<lparr> results = [Whole (numbered_post 0), Whole (numbered_post 1)],
           metadata = Metadata \<lparr> md_page = 1, md_limit = 2, totalCount = 3, totalPages = 2 \<rparr> \<rparr>))
       \<le> 2"
proof -
  let ?S = "plain_schema \<lparr> ds_count := Some 2, ds_page := None \<rparr>"
  let ?P = "[numbered_post 0, numbered_post 1, numbered_post 2]"
  let ?env = "\<lparr> results = [Whole (numbered_post 0), Whole (numbered_post 1)],
           metadata = Metadata \<lparr> md_page = 1, md_limit = 2, totalCount = 3, totalPages = 2 \<rparr> \<rparr>"
  have a: "ds_count ?S = Some 2" by simp
  have b: "(0::int) < 2" by simp
  have p: "pipeline sample_env ?S ?P = Inr ?env"
    by (simp add: pipeline_plain)
      (simp add: envelope_of_def page_or_1_def js_slice_def project_stage_def plain_schema_def
        meta_builder_def or_null_def truthy_metadata_def)
  from page_size_bounded [OF a b, of 0 "[]" sample_env ?P]
  have "\<forall>envelope. pipeline sample_env ?S ?P = Inr envelope
          \<longrightarrow> int (length (results envelope)) \<le> 2"
    by (rule conjunct2)
  with p have "int (length (results ?env)) \<le> 2" by blast
  with a b p show ?thesis by blast
qed

section \<open>Sort directions\<close>

lemma processSortParameter_single:
  assumes "field \<noteq> ''length''" and "field \<noteq> ''__proto__''"
  shows "processSortParameter (Some [(field, Number (Finite 1))]) = [(field, 1)]"
    and "processSortParameter (Some [(field, Number (Finite (- 1)))]) = [(field, - 1)]"
  using assms
  by (simp_all add: processSortParameter_def each_entries_def own_property_def
      array_like_length_def direction_def)


lemma sample_dates:
  "new_Date sample_env (Str ''2020-01-01'') = Inr (Some 1577836800000)"
  "new_Date sample_env (Str ''2021-01-01'') = Inr (Some 1609459200000)"
  "new_Date sample_env (Str ''1 Jan 2022'') = Inr (Some 1640995200000)"
  "new_Date sample_env (Str ''abc'') = Inr None"
  "new_Date sample_env Undefined = Inr None"
  by (simp_all add: new_Date_def sample_env_def sample_Date_parse_def)

lemma property_keyed_post:
  "get_property sample_env (attributes (keyed_post name key v)) key = Inr v"
  by (simp add: get_property_def keyed_post_def)

lemma property_keyed_post_other:
  "key \<noteq> field \<Longrightarrow> field \<noteq> ''toString'' \<Longrightarrow>
   get_property sample_env (attributes (keyed_post name key v)) field = Inr Undefined"
  by (simp add: get_property_def keyed_post_def sample_env_def)

lemma sample_criteria:
  "sort_criteria sample_env key (keyed_post name key (Str ''2020-01-01''))
     = Inr (Number (Finite 1577836800000))"
  "sort_criteria sample_env key (keyed_post name key (Str ''2021-01-01''))
     = Inr (Number (Finite 1609459200000))"
  "sort_criteria sample_env key (keyed_post name key (Str ''1 Jan 2022''))
     = Inr (Number (Finite 1640995200000))"
  "sort_criteria sample_env key (keyed_post name key (Str ''abc'')) = Inr (Str ''abc'')"
  by (simp_all add: sort_criteria_def property_keyed_post sample_dates)

lemma sample_criteria_missing:
  "sort_criteria sample_env ''date'' (keyed_post name ''title'' v) = Inr Undefined"
  by (simp add: sort_criteria_def property_keyed_post_other sample_dates)

lemma sample_js_less:
  "js_less sample_env (Number (Finite x)) (Number (Finite y)) = (x < y)"
  "js_less sample_env (Str s) (Number n) = False"
  "js_less sample_env (Number n) (Str s) = False"
  "js_less sample_env Undefined (Number n) = False"
  "js_less sample_env (Number n) Undefined = False"
  by (simp_all add: js_less_def primitive_def to_number_def sample_env_def)



lemma sort_three_dates:
  "sort_stage sample_env (processSortParameter (Some [(''date'', Number (Finite 1))]))
     [dated_post ''a'' (Str ''1 Jan 2022''), keyed_post ''d'' ''title'' (Str ''x''),
      dated_post ''b'' (Str ''2021-01-01''), dated_post ''c'' (Str ''2020-01-01'')]
   = Inr [dated_post ''c'' (Str ''2020-01-01''), dated_post ''b'' (Str ''2021-01-01''),
          dated_post ''a'' (Str ''1 Jan 2022''), keyed_post ''d'' ''title'' (Str ''x'')]"
  by (simp add: processSortParameter_single sort_by_field_def sortBy_def array_sort_def
      dated_post_def sample_criteria sample_criteria_missing comparator_def sample_js_less Let_def)


section \<open>Sorting by date\<close>

lemma dated_criteria:
  assumes "dated_or_missing E field p"
  shows "sort_criteria E field p
           = Inr (case date_of E field p of
                    None \<Rightarrow> Undefined
                  | Some t \<Rightarrow> Number (Finite (of_int t)))"
proof (cases "get_property E (attributes p) field")
  case (Inl ex)
  with assms show ?thesis by (simp add: dated_or_missing_def)
next
  case (Inr v)
  show ?thesis
  proof (cases "new_Date E v")
    case (Inl ex)
    with assms Inr show ?thesis by (simp add: dated_or_missing_def)
  next
    case d: (Inr d)
    with assms Inr show ?thesis
      by (cases d) (simp_all add: dated_or_missing_def sort_criteria_def date_of_def)
  qed
qed

lemma wrap_dated_items:
  assumes "list_all (dated_or_missing E field) ps"
  shows "\<exists>items. wrap_items (sort_criteria E field) index ps = Inr items
           \<and> map item_value items = ps
           \<and> list_all (\<lambda>u. item_criteria u
                = (case date_of E field (item_value u) of
                     None \<Rightarrow> Undefined
                   | Some t \<Rightarrow> Number (Finite (of_int t)))) items"
  using assms
proof (induction ps arbitrary: index)
  case Nil
  then show ?case by simp
next
  case (Cons p ps)
  from Cons.prems have p: "dated_or_missing E field p"
    and ps: "list_all (dated_or_missing E field) ps" by simp_all
  from Cons.IH [OF ps, of "Suc index"] obtain items
    where w: "wrap_items (sort_criteria E field) (Suc index) ps = Inr items"
      and v: "map item_value items = ps"
      and c: "list_all (\<lambda>u. item_criteria u
                = (case date_of E field (item_value u) of
                     None \<Rightarrow> Undefined
                   | Some t \<Rightarrow> Number (Finite (of_int t)))) items"
    by blast
  from dated_criteria [OF p] w v c show ?case by simp
qed

lemma criteria_le_trans: "criteria_le a b \<Longrightarrow> criteria_le b c \<Longrightarrow> criteria_le a c"
  by (auto simp add: criteria_le_def split: jsval.splits number.splits)

lemma js_less_orderable:
  "js_less E (Number (Finite x)) (Number (Finite y)) = (x < y)"
  "js_less E Undefined b = False"
  "js_less E a Undefined = False"
  by (simp_all add: js_less_def primitive_def to_number_def split: jsval.splits sum.splits)

lemma comparator_after:
  "orderable (item_criteria t) \<Longrightarrow> orderable (item_criteria x) \<Longrightarrow>
   comparator E t x > 0 \<Longrightarrow> criteria_le (item_criteria x) (item_criteria t)"
  by (cases "item_criteria t"; cases "item_criteria x")
    (auto simp add: comparator_def orderable_def criteria_le_def js_less_orderable Let_def
      split: if_splits number.splits)

lemma comparator_not_after:
  "orderable (item_criteria t) \<Longrightarrow> orderable (item_criteria x) \<Longrightarrow>
   \<not> comparator E t x > 0 \<Longrightarrow> criteria_le (item_criteria t) (item_criteria x)"
  by (cases "item_criteria t"; cases "item_criteria x")
    (auto simp add: comparator_def orderable_def criteria_le_def js_less_orderable Let_def
      split: if_splits number.splits)

lemma sorted_insert_item:
  assumes "sorted_wrt (\<lambda>u v. criteria_le (item_criteria v) (item_criteria u)) rs"
    and "list_all (\<lambda>u. orderable (item_criteria u)) rs"
    and "orderable (item_criteria x)"
  shows "sorted_wrt (\<lambda>u v. criteria_le (item_criteria v) (item_criteria u)) (insert_item E x rs)"
  using assms
proof (induction rs)
  case Nil
  then show ?case by simp
next
  case (Cons t rest)
  from Cons.prems have ot: "orderable (item_criteria t)" by simp
  show ?case
  proof (cases "comparator E t x > 0")
    case True
    from comparator_after [OF ot Cons.prems(3) True]
    have "criteria_le (item_criteria x) (item_criteria t)" .
    with Cons True show ?thesis by (auto simp add: set_insert_item)
  next
    case False
    from comparator_not_after [OF ot Cons.prems(3) False]
    have tx: "criteria_le (item_criteria t) (item_criteria x)" .
    have "criteria_le (item_criteria v) (item_criteria x)" if "v \<in> set rest" for v
    proof -
      from Cons.prems(1) that have "criteria_le (item_criteria v) (item_criteria t)" by simp
      then show ?thesis using tx by (rule criteria_le_trans)
    qed
    with Cons.prems(1) tx False show ?thesis by auto
  qed
qed

lemma orderable_insert_item:
  "list_all (\<lambda>u. orderable (item_criteria u)) rs \<Longrightarrow> orderable (item_criteria x) \<Longrightarrow>
   list_all (\<lambda>u. orderable (item_criteria u)) (insert_item E x rs)"
  by (simp add: list_all_iff set_insert_item)

lemma sorted_foldl_insert_item:
  "sorted_wrt (\<lambda>u v. criteria_le (item_criteria v) (item_criteria u)) acc \<Longrightarrow>
   list_all (\<lambda>u. orderable (item_criteria u)) acc \<Longrightarrow>
   list_all (\<lambda>u. orderable (item_criteria u)) items \<Longrightarrow>
   sorted_wrt (\<lambda>u v. criteria_le (item_criteria v) (item_criteria u))
     (foldl (\<lambda>sorted element. insert_item E element sorted) acc items)"
proof (induction items arbitrary: acc)
  case Nil
  then show ?case by simp
next
  case (Cons x items)
  from Cons.prems have ox: "orderable (item_criteria x)" by simp
  have s: "sorted_wrt (\<lambda>u v. criteria_le (item_criteria v) (item_criteria u)) (insert_item E x acc)"
    using Cons.prems(1,2) ox by (rule sorted_insert_item)
  have o: "list_all (\<lambda>u. orderable (item_criteria u)) (insert_item E x acc)"
    using Cons.prems(2) ox by (rule orderable_insert_item)
  from Cons.prems(3) have "list_all (\<lambda>u. orderable (item_criteria u)) items" by simp
  from Cons.IH [OF s o this] show ?case by simp
qed

lemma sorted_array_sort:
  "list_all (\<lambda>u. orderable (item_criteria u)) items \<Longrightarrow>
   sorted_wrt (\<lambda>u v. criteria_le (item_criteria u) (item_criteria v)) (array_sort E items)"
  using sorted_foldl_insert_item [of "[]" items E]
  by (simp add: array_sort_def sorted_wrt_rev)

lemma date_key_order:
  "criteria_le (case d1 of None \<Rightarrow> Undefined | Some t \<Rightarrow> Number (Finite (of_int t)))
               (case d2 of None \<Rightarrow> Undefined | Some t \<Rightarrow> Number (Finite (of_int t)))
   \<Longrightarrow> (case d1 of None \<Rightarrow> True | Some s \<Rightarrow> (case d2 of None \<Rightarrow> True | Some t \<Rightarrow> s \<le> t))"
  by (cases d1; cases d2) (simp_all add: criteria_le_def)

lemma chronological_sortBy:
  assumes "list_all (dated_or_missing E field) posts"
  shows "\<exists>ordered. sortBy E posts (sort_criteria E field) = Inr ordered
           \<and> chronological E field ordered"
proof -
  from wrap_dated_items [OF assms, of 0] obtain items
    where w: "wrap_items (sort_criteria E field) 0 posts = Inr items"
      and crit: "list_all (\<lambda>u. item_criteria u
                = (case date_of E field (item_value u) of
                     None \<Rightarrow> Undefined
                   | Some t \<Rightarrow> Number (Finite (of_int t)))) items"
    by blast
  have key: "item_criteria u
                = (case date_of E field (item_value u) of
                     None \<Rightarrow> Undefined
                   | Some t \<Rightarrow> Number (Finite (of_int t)))" if "u \<in> set items" for u
    using crit that by (simp add: list_all_iff)
  have "orderable (item_criteria u)" if "u \<in> set items" for u
    by (simp add: key [OF that] orderable_def split: option.splits)
  then have "list_all (\<lambda>u. orderable (item_criteria u)) items"
    by (simp add: list_all_iff)
  then have srt: "sorted_wrt (\<lambda>u v. criteria_le (item_criteria u) (item_criteria v))
                (array_sort E items)"
    by (rule sorted_array_sort)
  have same: "set (array_sort E items) = set items"
    using mset_array_sort [of E items] by (rule mset_eq_setD)
  have "sorted_wrt (\<lambda>u v. in_date_order E field (item_value u) (item_value v))
          (array_sort E items)"
  proof (rule sorted_wrt_mono_rel [OF _ srt])
    fix u v
    assume u: "u \<in> set (array_sort E items)" and v: "v \<in> set (array_sort E items)"
      and le: "criteria_le (item_criteria u) (item_criteria v)"
    from u v same have "u \<in> set items" and "v \<in> set items" by simp_all
    with le have "criteria_le
        (case date_of E field (item_value u) of
           None \<Rightarrow> Undefined | Some t \<Rightarrow> Number (Finite (of_int t)))
        (case date_of E field (item_value v) of
           None \<Rightarrow> Undefined | Some t \<Rightarrow> Number (Finite (of_int t)))"
      by (simp add: key)
    then show "in_date_order E field (item_value u) (item_value v)"
      unfolding in_date_order_def by (rule date_key_order)
  qed
  then have "chronological E field (map item_value (array_sort E items))"
    by (simp add: chronological_def sorted_wrt_map)
  with w show ?thesis by (simp add: sortBy_def)
qed

text \<open>
  C7, amended. For a sort field other than \<^verbatim>\<open>length\<close> and \<^verbatim>\<open>__proto__\<close>, and a dataset in
  which the sort field of every record can be read and holds a value that parses as a valid
  date or is \<^verbatim>\<open>undefined\<close>, an ascending sort returns a permutation of the records in which
  every two records whose values parse as dates are in the order of their time values.
\<close>

theorem ascending_sort_chronological:
  assumes "field \<noteq> ''length''" and "field \<noteq> ''__proto__''"
    and "list_all (dated_or_missing E field) posts"
  shows "\<exists>ordered.
           sort_stage E (processSortParameter (Some [(field, Number (Finite 1))])) posts
             = Inr ordered
         \<and> chronological E field ordered
         \<and> mset ordered = mset posts"
proof -
  from chronological_sortBy [OF assms(3)] obtain ordered
    where s: "sortBy E posts (sort_criteria E field) = Inr ordered"
      and c: "chronological E field ordered"
    by blast
  from s have "sort_stage E (processSortParameter (Some [(field, Number (Finite 1))])) posts
                 = Inr ordered"
    by (simp add: processSortParameter_single [OF assms(1,2)] sort_by_field_def)
  with c mset_sortBy [OF s] show ?thesis by blast
qed

lemma sort_mixed_posts:
  "sort_stage sample_env (processSortParameter (Some [(''date'', Number (Finite 1))])) mixed_posts
     = Inr mixed_posts"
  by (simp add: processSortParameter_single sort_by_field_def sortBy_def array_sort_def
      mixed_posts_def dated_post_def sample_criteria comparator_def sample_js_less Let_def)

lemma sample_date_of:
  "date_of sample_env key (keyed_post name key (Str ''2020-01-01'')) = Some 1577836800000"
  "date_of sample_env key (keyed_post name key (Str ''2021-01-01'')) = Some 1609459200000"
  "date_of sample_env key (keyed_post name key (Str ''1 Jan 2022'')) = Some 1640995200000"
  "date_of sample_env key (keyed_post name key (Str ''abc'')) = None"
  by (simp_all add: date_of_def property_keyed_post sample_dates)

text \<open>
  C7. The claim is that an ascending sort puts every two records whose values parse as
  dates in the order of their time values. The comparison function does not order a string
  that is no date against a number, so a record with such a value between two dated records
  keeps them apart: the dataset with the dates 2021-01-01, \<^verbatim>\<open>abc\<close> and 2020-01-01 is
  returned as it is, with 2021 before 2020.
\<close>

theorem mixed_dataset_not_chronological:
  "sort_stage sample_env (processSortParameter (Some [(''date'', Number (Finite 1))])) mixed_posts
     = Inr mixed_posts
   \<and> \<not> chronological sample_env ''date'' mixed_posts"
proof (rule conjI)
  show "\<not> chronological sample_env ''date'' mixed_posts"
    by (simp add: mixed_posts_def dated_post_def chronological_def in_date_order_def
        sample_date_of)
qed (rule sort_mixed_posts)

theorem ascending_sort_chronological_witness:
  "''date'' \<noteq> ''length'' \<and> ''date'' \<noteq> ''__proto__''
   \<and> list_all (dated_or_missing sample_env ''date'')
       [dated_post ''a'' (Str ''1 Jan 2022''), keyed_post ''d'' ''title'' (Str ''x''),
        dated_post ''b'' (Str ''2021-01-01''), dated_post ''c'' (Str ''2020-01-01'')]
   \<and> sort_stage sample_env (processSortParameter (Some [(''date'', Number (Finite 1))]))
       [dated_post ''a'' (Str ''1 Jan 2022''), keyed_post ''d'' ''title'' (Str ''x''),
        dated_post ''b'' (Str ''2021-01-01''), dated_post ''c'' (Str ''2020-01-01'')]
     = Inr [dated_post ''c'' (Str ''2020-01-01''), dated_post ''b'' (Str ''2021-01-01''),
            dated_post ''a'' (Str ''1 Jan 2022''), keyed_post ''d'' ''title'' (Str ''x'')]
   \<and> chronological sample_env ''date''
       [dated_post ''c'' (Str ''2020-01-01''), dated_post ''b'' (Str ''2021-01-01''),
        dated_post ''a'' (Str ''1 Jan 2022''), keyed_post ''d'' ''title'' (Str ''x'')]"
proof -
  have a: "''date'' \<noteq> ''length''" and b: "''date'' \<noteq> ''__proto__''" by simp_all
  have c: "list_all (dated_or_missing sample_env ''date'')
       [dated_post ''a'' (Str ''1 Jan 2022''), keyed_post ''d'' ''title'' (Str ''x''),
        dated_post ''b'' (Str ''2021-01-01''), dated_post ''c'' (Str ''2020-01-01'')]"
    by (simp add: dated_or_missing_def dated_post_def property_keyed_post
        property_keyed_post_other sample_dates)
  from ascending_sort_chronological [OF a b c] obtain ordered
    where s: "sort_stage sample_env (processSortParameter (Some [(''date'', Number (Finite 1))]))
       [dated_post ''a'' (Str ''1 Jan 2022''), keyed_post ''d'' ''title'' (Str ''x''),
        dated_post ''b'' (Str ''2021-01-01''), dated_post ''c'' (Str ''2020-01-01'')]
         = Inr ordered"
      and ch: "chronological sample_env ''date'' ordered"
    by blast
  from s have "ordered
     = [dated_post ''c'' (Str ''2020-01-01''), dated_post ''b'' (Str ''2021-01-01''),
        dated_post ''a'' (Str ''1 Jan 2022''), keyed_post ''d'' ''title'' (Str ''x'')]"
    by (simp only: sort_three_dates sum.inject)
  with s ch a b c show ?thesis by simp
qed
section \<open>Post-processors\<close>

lemma run_postProcessors_first_throw:
  "list_all (\<lambda>s. isl (processor V s data raw) = False) pre \<Longrightarrow>
   processor V script data raw = Inl err \<Longrightarrow>
   run_postProcessors V data raw (pre @ script # rest) processed
     = (map (\<lambda>s. (s, raw)) (pre @ [script]), Inl err)"
proof (induction pre arbitrary: processed)
  case Nil
  then show ?case by simp
next
  case (Cons s pre)
  from Cons.prems(1) obtain out where out: "processor V s data raw = Inr out"
    by (cases "processor V s data raw") auto
  from Cons.prems(1) have "list_all (\<lambda>s. isl (processor V s data raw) = False) pre" by simp
  from Cons.IH [OF this Cons.prems(2), of out] out show ?case
    by (simp add: Let_def)
qed

lemma first_thrower:
  assumes "script \<in> set chain" and "processor V script data raw = Inl err0"
  shows "\<exists>pre s rest err. chain = pre @ s # rest
           \<and> list_all (\<lambda>s. isl (processor V s data raw) = False) pre
           \<and> processor V s data raw = Inl err"
proof -
  from assms(2) have "isl (processor V script data raw)" by simp
  with assms(1) have "\<exists>s\<in>set chain. isl (processor V s data raw)" by blast
  from split_list_first_prop [OF this]
  obtain pre s rest where c: "chain = pre @ s # rest"
    and t: "isl (processor V s data raw)"
    and p: "\<forall>y\<in>set pre. \<not> isl (processor V y data raw)"
    by blast
  from t obtain err where "processor V s data raw = Inl err"
    by (cases "processor V s data raw") auto
  moreover from p have "list_all (\<lambda>s. isl (processor V s data raw) = False) pre"
    by (simp add: list_all_iff)
  ultimately show ?thesis using c by blast
qed

text \<open>
  C9. When the template has rendered and a post-processor of the chain throws, rendering
  stops at the first script that throws: the scripts before it have been called and have
  returned, it is the last script called, and the callback is called as \<^verbatim>\<open>done(err)\<close> with
  the error that this script threw, as it was thrown (no status code is attached), and with
  no output.
\<close>

theorem render_postProcessor_throw:
  assumes "template_render V data (hostKey pg) (keepWhitespace pg) = Inr raw"
    and "postProcessors pg = Some own"
    and "script \<in> set (postProcessor_chain pg own)"
    and "processor V script data raw = Inl err0"
  shows "\<exists>pre s rest err.
           postProcessor_chain pg own = pre @ s # rest
         \<and> list_all (\<lambda>s. isl (processor V s data raw) = False) pre
         \<and> processor V s data raw = Inl err
         \<and> render V pg data
             = \<lparr> invocations = map (\<lambda>s. (s, raw)) (pre @ [s]), callback = DoneError err \<rparr>"
proof -
  from first_thrower [OF assms(3,4)] obtain pre s rest err
    where c: "postProcessor_chain pg own = pre @ s # rest"
      and p: "list_all (\<lambda>s. isl (processor V s data raw) = False) pre"
      and e: "processor V s data raw = Inl err"
    by blast
  from run_postProcessors_first_throw [OF p e, of rest raw]
  have "run_postProcessors V data raw (postProcessor_chain pg own) raw
          = (map (\<lambda>s. (s, raw)) (pre @ [s]), Inl err)"
    by (simp only: c)
  moreover from c have "postProcessor_chain pg own \<noteq> []" by simp
  ultimately have "render V pg data
             = \<lparr> invocations = map (\<lambda>s. (s, raw)) (pre @ [s]), callback = DoneError err \<rparr>"
    using assms(1,2) by (simp add: render_def Let_def)
  with c p e show ?thesis by blast
qed

theorem render_postProcessor_throw_witness:
  "template_render sample_view ''x'' (hostKey (sample_page [''wrap'', ''boom'', ''bang'', ''shout'']))
      (keepWhitespace (sample_page [''wrap'', ''boom'', ''bang'', ''shout''])) = Inr ''x''
   \<and> postProcessors (sample_page [''wrap'', ''boom'', ''bang'', ''shout''])
       = Some [''wrap'', ''boom'', ''bang'', ''shout'']
   \<and> ''bang'' \<in> set (postProcessor_chain (sample_page [''wrap'', ''boom'', ''bang'', ''shout''])
                      [''wrap'', ''boom'', ''bang'', ''shout''])
   \<and> processor sample_view ''bang'' ''x'' ''x'' = Inl (JsError ''Error'' ''bang'' None)
   \<and> render sample_view (sample_page [''wrap'', ''boom'', ''bang'', ''shout'']) ''x''
        = \<lparr> invocations = [(''wrap'', ''x''), (''boom'', ''x'')],
            callback = DoneError (JsError ''Error'' ''boom'' None) \<rparr>"
proof -
  let ?scripts = "[''wrap'', ''boom'', ''bang'', ''shout'']"
  let ?pg = "sample_page ?scripts"
  have ch: "postProcessor_chain ?pg ?scripts = ?scripts"
    by (simp add: postProcessor_chain_def sample_page_def)
  have a: "template_render sample_view ''x'' (hostKey ?pg) (keepWhitespace ?pg) = Inr ''x''"
    by (simp add: sample_view_def)
  have b: "postProcessors ?pg = Some ?scripts"
    by (simp add: sample_page_def)
  have c: "''bang'' \<in> set (postProcessor_chain ?pg ?scripts)"
    by (simp add: ch)
  have d: "processor sample_view ''bang'' ''x'' ''x'' = Inl (JsError ''Error'' ''bang'' None)"
    by (simp add: sample_view_def)
  from render_postProcessor_throw [OF a b c d] obtain pre s rest err
    where sp: "postProcessor_chain ?pg ?scripts = pre @ s # rest"
      and ok: "list_all (\<lambda>s. isl (processor sample_view s ''x'' ''x'') = False) pre"
      and thr: "processor sample_view s ''x'' ''x'' = Inl err"
      and r: "render sample_view ?pg ''x''
             = \<lparr> invocations = map (\<lambda>s. (s, ''x'')) (pre @ [s]), callback = DoneError err \<rparr>"
    by blast
  have w: "isl (processor sample_view ''wrap'' ''x'' ''x'') = False"
    and t: "isl (processor sample_view ''boom'' ''x'' ''x'') = True"
    by (simp_all add: sample_view_def)
  from sp have sp': "?scripts = pre @ s # rest" by (simp only: ch)
  have "pre = [''wrap''] \<and> s = ''boom''"
  proof (cases pre)
    case Nil
    with sp' have "s = ''wrap''" by simp
    with thr w show ?thesis by simp
  next
    case (Cons p1 pre1)
    with sp' have p1: "p1 = ''wrap''" and rest1: "[''boom'', ''bang'', ''shout''] = pre1 @ s # rest"
      by simp_all
    show ?thesis
    proof (cases pre1)
      case Nil
      with rest1 Cons p1 show ?thesis by simp
    next
      case (Cons p2 pre2)
      with rest1 have "p2 = ''boom''" by simp
      with ok \<open>pre = p1 # pre1\<close> Cons t show ?thesis by simp
    qed
  qed
  with thr have "pre = [''wrap'']" and "s = ''boom''" and "err = JsError ''Error'' ''boom'' None"
    by (simp_all add: sample_view_def)
  with r have "render sample_view ?pg ''x''
        = \<lparr> invocations = [(''wrap'', ''x''), (''boom'', ''x'')],
            callback = DoneError (JsError ''Error'' ''boom'' None) \<rparr>"
    by simp
  with a b c d show ?thesis by simp
qed

lemma run_postProcessors_arguments:
  "list_all (\<lambda>c. snd c = raw) (fst (run_postProcessors V data raw chain processed))"
  by (induction chain arbitrary: processed) (simp_all add: Let_def split: sum.splits)

lemma run_postProcessors_all_return:
  "list_all (\<lambda>s. isl (processor V s data raw) = False) chain \<Longrightarrow> chain \<noteq> [] \<Longrightarrow>
   run_postProcessors V data raw chain processed
     = (map (\<lambda>s. (s, raw)) chain, processor V (last chain) data raw)"
proof (induction chain arbitrary: processed)
  case Nil
  then show ?case by simp
next
  case (Cons s rest)
  from Cons.prems(1) obtain out where out: "processor V s data raw = Inr out"
    by (cases "processor V s data raw") auto
  show ?case
  proof (cases "rest = []")
    case True
    with out show ?thesis by simp
  next
    case False
    from Cons.prems(1) have "list_all (\<lambda>s. isl (processor V s data raw) = False) rest" by simp
    from Cons.IH [OF this False, of out] out False show ?thesis
      by (simp add: Let_def)
  qed
qed

text \<open>
  C10. Every post-processor that is called receives the raw template output as its second
  argument; when the chain is not empty and no post-processor throws, every script of the
  chain is called, and the processed output handed to the callback is what the last
  post-processor returns for the raw output.
\<close>

theorem render_last_postProcessor_only:
  assumes "template_render V data (hostKey pg) (keepWhitespace pg) = Inr raw"
    and "postProcessors pg = Some own"
  shows "list_all (\<lambda>c. snd c = raw) (invocations (render V pg data))
       \<and> (postProcessor_chain pg own \<noteq> []
          \<and> list_all (\<lambda>s. isl (processor V s data raw) = False)
               (postProcessor_chain pg own)
          \<longrightarrow> invocations (render V pg data)
                = map (\<lambda>s. (s, raw)) (postProcessor_chain pg own)
            \<and> (\<exists>out. processor V
                   (last (postProcessor_chain pg own))
                   data raw = Inr out
                 \<and> callback (render V pg data) = DoneOutput out raw))"
proof -
  let ?chain = "postProcessor_chain pg own"
  have inv: "invocations (render V pg data)
               = (if ?chain \<noteq> [] then fst (run_postProcessors V data raw ?chain raw) else [])"
    using assms
    by (cases "run_postProcessors V data raw ?chain raw")
      (auto simp add: render_def Let_def split: sum.splits)
  have first: "list_all (\<lambda>c. snd c = raw) (invocations (render V pg data))"
    by (simp add: inv run_postProcessors_arguments)
  have second: "invocations (render V pg data) = map (\<lambda>s. (s, raw)) ?chain
            \<and> (\<exists>out. processor V (last ?chain) data raw = Inr out
                 \<and> callback (render V pg data) = DoneOutput out raw)"
    if ne: "?chain \<noteq> []"
      and ok: "list_all (\<lambda>s. isl (processor V s data raw) = False) ?chain"
  proof -
    note run = run_postProcessors_all_return [OF ok ne, of raw]
    from ne have "last ?chain \<in> set ?chain" by (rule last_in_set)
    with ok have "isl (processor V (last ?chain) data raw) = False"
      by (simp only: list_all_iff)
    then obtain out where out: "processor V (last ?chain) data raw = Inr out"
      by (cases "processor V (last ?chain) data raw") auto
    from assms ne run out have "callback (render V pg data) = DoneOutput out raw"
      by (simp add: render_def Let_def)
    moreover from inv ne run have "invocations (render V pg data) = map (\<lambda>s. (s, raw)) ?chain"
      by (simp)
    ultimately show ?thesis using out by blast
  qed
  from first second show ?thesis by blast
qed

theorem render_last_postProcessor_only_witness:
  "template_render sample_view ''x'' (hostKey (sample_page [''wrap'', ''shout'']))
      (keepWhitespace (sample_page [''wrap'', ''shout''])) = Inr ''x''
   \<and> postProcessors (sample_page [''wrap'', ''shout'']) = Some [''wrap'', ''shout'']
   \<and> invocations (render sample_view (sample_page [''wrap'', ''shout'']) ''x'')
        = [(''wrap'', ''x''), (''shout'', ''x'')]
   \<and> callback (render sample_view (sample_page [''wrap'', ''shout'']) ''x'') = DoneOutput ''x!'' ''x''"
proof -
  let ?pg = "sample_page [''wrap'', ''shout'']"
  have a: "template_render sample_view ''x'' (hostKey ?pg) (keepWhitespace ?pg) = Inr ''x''"
    by (simp add: sample_view_def)
  have b: "postProcessors ?pg = Some [''wrap'', ''shout'']"
    by (simp add: sample_page_def)
  have g: "postProcessor_chain ?pg [''wrap'', ''shout''] = [''wrap'', ''shout'']"
    by (simp add: postProcessor_chain_def sample_page_def)
  have ok: "list_all (\<lambda>s. isl (processor sample_view s ''x'' ''x'') = False) [''wrap'', ''shout'']"
    by (simp add: sample_view_def)
  have l: "processor sample_view ''shout'' ''x'' ''x'' = Inr ''x!''"
    by (simp add: sample_view_def)
  from render_last_postProcessor_only [OF a b] ok l a b show ?thesis
    by (simp add: g)
qed

end
